theory Spec2Isabelle
  imports Complex_Main
begin

section \<open>Floating-point values\<close>

text \<open>
  The notebook computes with NumPy \<open>float64\<close> values. They are modelled by exact real
  numbers together with the three special values of IEEE 754 arithmetic, so that a
  division by zero or the square root of a negative number is a value of the model, as
  it is in NumPy (which emits a \<open>RuntimeWarning\<close> and goes on), and not an
  unspecified real number. In this first reading rounding, overflow, underflow and the
  sign of zero are not modelled: a finite result is the exact real result. It says
  which formulas the cells compute. What depends on how a float rounds, overflows or
  underflows is stated in the second reading below, in which every result is rounded.
\<close>

datatype fl = Fin real | PInf | MInf | NaN

fun fneg :: "fl \<Rightarrow> fl" where
  "fneg (Fin a) = Fin (- a)"
| "fneg PInf = MInf"
| "fneg MInf = PInf"
| "fneg NaN = NaN"

fun fadd :: "fl \<Rightarrow> fl \<Rightarrow> fl" where
  "fadd (Fin a) (Fin b) = Fin (a + b)"
| "fadd NaN _ = NaN"
| "fadd _ NaN = NaN"
| "fadd PInf MInf = NaN"
| "fadd MInf PInf = NaN"
| "fadd PInf _ = PInf"
| "fadd _ PInf = PInf"
| "fadd MInf _ = MInf"
| "fadd _ MInf = MInf"

definition fsub :: "fl \<Rightarrow> fl \<Rightarrow> fl" where
  "fsub a b = fadd a (fneg b)"

fun fmul :: "fl \<Rightarrow> fl \<Rightarrow> fl" where
  "fmul (Fin a) (Fin b) = Fin (a * b)"
| "fmul NaN _ = NaN"
| "fmul _ NaN = NaN"
| "fmul PInf (Fin b) = (if b = 0 then NaN else if 0 < b then PInf else MInf)"
| "fmul MInf (Fin b) = (if b = 0 then NaN else if 0 < b then MInf else PInf)"
| "fmul (Fin a) PInf = (if a = 0 then NaN else if 0 < a then PInf else MInf)"
| "fmul (Fin a) MInf = (if a = 0 then NaN else if 0 < a then MInf else PInf)"
| "fmul PInf PInf = PInf"
| "fmul PInf MInf = MInf"
| "fmul MInf PInf = MInf"
| "fmul MInf MInf = PInf"

fun fdiv :: "fl \<Rightarrow> fl \<Rightarrow> fl" where
  "fdiv (Fin a) (Fin b) =
     (if b \<noteq> 0 then Fin (a / b)
      else if a = 0 then NaN else if 0 < a then PInf else MInf)"
| "fdiv NaN _ = NaN"
| "fdiv _ NaN = NaN"
| "fdiv (Fin a) PInf = Fin 0"
| "fdiv (Fin a) MInf = Fin 0"
| "fdiv PInf (Fin b) = (if 0 \<le> b then PInf else MInf)"
| "fdiv MInf (Fin b) = (if 0 \<le> b then MInf else PInf)"
| "fdiv PInf PInf = NaN"
| "fdiv PInf MInf = NaN"
| "fdiv MInf PInf = NaN"
| "fdiv MInf MInf = NaN"

fun fsqrt :: "fl \<Rightarrow> fl" where
  "fsqrt (Fin a) = (if a < 0 then NaN else Fin (sqrt a))"
| "fsqrt PInf = PInf"
| "fsqrt MInf = NaN"
| "fsqrt NaN = NaN"

fun fexp :: "fl \<Rightarrow> fl" where
  "fexp (Fin a) = Fin (exp a)"
| "fexp PInf = PInf"
| "fexp MInf = Fin 0"
| "fexp NaN = NaN"

text \<open>Comparison: every comparison with \<open>NaN\<close> is false.\<close>

fun fle :: "fl \<Rightarrow> fl \<Rightarrow> bool" where
  "fle (Fin a) (Fin b) = (a \<le> b)"
| "fle NaN _ = False"
| "fle _ NaN = False"
| "fle MInf _ = True"
| "fle _ PInf = True"
| "fle PInf _ = False"
| "fle _ MInf = False"


text \<open>\<open>np.maximum\<close> and \<open>np.minimum\<close> propagate \<open>NaN\<close>.\<close>

fun fmaximum :: "fl \<Rightarrow> fl \<Rightarrow> fl" where
  "fmaximum NaN _ = NaN"
| "fmaximum _ NaN = NaN"
| "fmaximum a b = (if fle a b then b else a)"

fun fminimum :: "fl \<Rightarrow> fl \<Rightarrow> fl" where
  "fminimum NaN _ = NaN"
| "fminimum _ NaN = NaN"
| "fminimum a b = (if fle a b then a else b)"

section \<open>The NumPy reductions the notebook calls\<close>

text \<open>
  Arrays are lists. The reductions follow NumPy's reference implementation
  (\<open>_mean\<close> and \<open>_var\<close> of \<open>numpy/core/_methods.py\<close>, \<open>cov\<close> and \<open>corrcoef\<close> of
  \<open>numpy/lib/function_base.py\<close>), including what they do on too few observations:
  the count of degrees of freedom is clamped at zero and the division is carried out.
\<close>

primrec np_sum :: "fl list \<Rightarrow> fl" where
  "np_sum [] = Fin 0"
| "np_sum (x # xs) = fadd x (np_sum xs)"

definition np_mean :: "fl list \<Rightarrow> fl" where
  "np_mean a = fdiv (np_sum a) (Fin (real (length a)))"

definition np_var :: "int \<Rightarrow> fl list \<Rightarrow> fl" where
  "np_var ddof a =
     (let rcount = int (length a);
          arrmean = fdiv (np_sum a) (Fin (real_of_int rcount));
          x = map (\<lambda>v. fsub v arrmean) a;
          x2 = map (\<lambda>v. fmul v v) x;
          ret = np_sum x2;
          rcount' = max (rcount - ddof) 0
      in fdiv ret (Fin (real_of_int rcount')))"

definition np_std :: "int \<Rightarrow> fl list \<Rightarrow> fl" where
  "np_std ddof a = fsqrt (np_var ddof a)"

text \<open>
  One entry of the matrix \<open>np.cov(x, y, ddof=ddof)\<close>: the rows \<open>u\<close> and \<open>v\<close> are
  centred, their dot product is taken and multiplied by \<open>1 / fact\<close>, where a
  non-positive \<open>fact\<close> is replaced by \<open>0.0\<close>. NumPy refuses rows of different
  lengths; the notebook only passes arrays computed from one sample, of one length.
\<close>

definition np_dot :: "fl list \<Rightarrow> fl list \<Rightarrow> fl" where
  "np_dot u v = np_sum (map2 fmul u v)"

definition np_cov_entry :: "int \<Rightarrow> fl list \<Rightarrow> fl list \<Rightarrow> fl" where
  "np_cov_entry ddof u v =
     (let avgu = np_mean u;
          avgv = np_mean v;
          fact = int (length u) - ddof;
          fact' = (if fact \<le> 0 then 0 else fact);
          xu = map (\<lambda>a. fsub a avgu) u;
          xv = map (\<lambda>a. fsub a avgv) v;
          c = np_dot xu xv
      in fmul c (fdiv (Fin 1) (Fin (real_of_int fact'))))"

text \<open>\<open>np.cov(x, y, ddof=ddof)[0, 1]\<close>.\<close>

definition np_cov01 :: "int \<Rightarrow> fl list \<Rightarrow> fl list \<Rightarrow> fl" where
  "np_cov01 ddof x y = np_cov_entry ddof x y"

definition np_clip :: "fl \<Rightarrow> fl \<Rightarrow> fl \<Rightarrow> fl" where
  "np_clip a lo hi = fminimum (fmaximum a lo) hi"

text \<open>
  \<open>np.corrcoef(x, y)[0, 1]\<close>: the covariance matrix (with NumPy's default
  \<open>ddof = 1\<close>) is divided by the square roots of its diagonal, first along the rows,
  then along the columns, and the result is clipped to \<open>[-1, 1]\<close>.
\<close>

definition np_corrcoef01 :: "fl list \<Rightarrow> fl list \<Rightarrow> fl" where
  "np_corrcoef01 x y =
     (let c00 = np_cov_entry 1 x x;
          c01 = np_cov_entry 1 x y;
          c11 = np_cov_entry 1 y y;
          stddev0 = fsqrt c00;
          stddev1 = fsqrt c11;
          c = fdiv (fdiv c01 stddev0) stddev1
      in np_clip c (Fin (- 1)) (Fin 1))"

section \<open>The random stream\<close>

text \<open>
  The generator \<open>rng\<close> is the sequence of standard-normal values it will deliver.
  \<open>rng.standard_normal(size)\<close> returns the first \<open>size\<close> of them and advances the
  generator, which the model returns as the new state. A negative size raises
  \<open>ValueError\<close> in NumPy; size zero gives the empty array.
\<close>

type_synonym rng = "nat \<Rightarrow> real"

datatype error = ValueError | IndexError | OverflowError

definition standard_normal :: "rng \<Rightarrow> int \<Rightarrow> error + (fl list \<times> rng)" where
  "standard_normal g sz =
     (if sz < 0 then Inl ValueError
      else Inr (map (\<lambda>i. Fin (g i)) [0..<nat sz], \<lambda>i. g (nat sz + i)))"

section \<open>The samplers and the estimators\<close>

text \<open>
  The parameters \<open>S0\<close>, \<open>K\<close>, \<open>T\<close>, \<open>r\<close>, \<open>sigma\<close> and \<open>myepsilon\<close> are finite
  floats, the sample sizes are Python integers. \<open>norm.ppf\<close> of SciPy is the
  parameter \<open>ppf\<close>.
\<close>

definition terminal_stockprice ::
  "rng \<Rightarrow> real \<Rightarrow> real \<Rightarrow> real \<Rightarrow> real \<Rightarrow> int \<Rightarrow> error + (fl list \<times> rng)" where
  "terminal_stockprice g S0 T r sigma samplesize =
     (case standard_normal g samplesize of
        Inl e \<Rightarrow> Inl e
      | Inr (mystandardnormalsample, g') \<Rightarrow>
          (let tmp1 = fmul (fsub (Fin r) (fmul (Fin 0.5) (fmul (Fin sigma) (Fin sigma)))) (Fin T);
               tmp2 = map (fmul (fmul (Fin sigma) (fsqrt (Fin T)))) mystandardnormalsample;
               stockprice = map (\<lambda>t. fmul (Fin S0) (fexp (fadd tmp1 t))) tmp2
           in Inr (stockprice, g')))"

type_synonym mc_result = "fl \<times> fl \<times> fl \<times> fl"

definition bs_call_mc ::
  "(fl \<Rightarrow> fl) \<Rightarrow> rng \<Rightarrow> real \<Rightarrow> real \<Rightarrow> real \<Rightarrow> real \<Rightarrow> real \<Rightarrow> int \<Rightarrow> real
     \<Rightarrow> error + (mc_result \<times> rng)" where
  "bs_call_mc ppf g S0 K T r sigma samplesize myepsilon =
     (case terminal_stockprice g S0 T r sigma samplesize of
        Inl e \<Rightarrow> Inl e
      | Inr (mystockprice, g') \<Rightarrow>
          (let payoffs = map (\<lambda>s. fmaximum (fsub s (Fin K)) (Fin 0)) mystockprice;
               discountedpayoffs = map (fmul (fexp (fmul (fneg (Fin r)) (Fin T)))) payoffs;
               price = np_mean discountedpayoffs;
               standarddev_rv = np_std 1 discountedpayoffs;
               standarddev_mcest = fdiv standarddev_rv (fsqrt (Fin (real_of_int samplesize)));
               aepsilon = ppf (fsub (Fin 1) (fmul (Fin myepsilon) (Fin 0.5)));
               ci_left = fsub price (fmul aepsilon standarddev_mcest);
               ci_right = fadd price (fmul aepsilon standarddev_mcest)
           in Inr ((price, standarddev_mcest, ci_left, ci_right), g')))"

type_synonym cv_result = "fl \<times> fl \<times> fl \<times> fl \<times> fl"

definition bs_call_cv ::
  "(fl \<Rightarrow> fl) \<Rightarrow> rng \<Rightarrow> real \<Rightarrow> real \<Rightarrow> real \<Rightarrow> real \<Rightarrow> real \<Rightarrow> int \<Rightarrow> real
     \<Rightarrow> error + (cv_result \<times> rng)" where
  "bs_call_cv ppf g S0 K T r sigma samplesize myepsilon =
     (case terminal_stockprice g S0 T r sigma samplesize of
        Inl e \<Rightarrow> Inl e
      | Inr (mystockprice, g') \<Rightarrow>
          (let payoffs = map (\<lambda>s. fmaximum (fsub s (Fin K)) (Fin 0)) mystockprice;
               discountedpayoffs = map (fmul (fexp (fmul (fneg (Fin r)) (Fin T)))) payoffs;
               xs = map (fmul (fexp (fmul (fneg (Fin r)) (Fin T)))) mystockprice;
               bstar = fdiv (np_cov01 1 xs discountedpayoffs) (np_var 1 xs);
               z = map2 fsub discountedpayoffs
                     (map (fmul bstar) (map (\<lambda>x. fsub x (Fin S0)) xs));
               price = np_mean z;
               standarddev_rv = np_std 1 z;
               standarddev_cvest = fdiv standarddev_rv (fsqrt (Fin (real_of_int samplesize)));
               aepsilon = ppf (fsub (Fin 1) (fmul (Fin myepsilon) (Fin 0.5)));
               ci_left = fsub price (fmul aepsilon standarddev_cvest);
               ci_right = fadd price (fmul aepsilon standarddev_cvest);
               tmpcov = np_cov01 1 xs discountedpayoffs;
               tmpvarx = np_var 1 xs;
               tmpvary = np_var 1 discountedpayoffs;
               rhosquared = fdiv (fmul tmpcov tmpcov) (fmul tmpvarx tmpvary)
           in Inr ((price, standarddev_cvest, ci_left, ci_right, rhosquared), g')))"

definition terminal_stockprice_av ::
  "rng \<Rightarrow> real \<Rightarrow> real \<Rightarrow> real \<Rightarrow> real \<Rightarrow> int
     \<Rightarrow> error + ((fl list \<times> fl list \<times> fl list) \<times> rng)" where
  "terminal_stockprice_av g S0 T r sigma halfsamplesize =
     (case standard_normal g halfsamplesize of
        Inl e \<Rightarrow> Inl e
      | Inr (mynormals1, g') \<Rightarrow>
          (let mynormals2 = map fneg mynormals1;
               tmp1 = fmul (fsub (Fin r) (fmul (Fin 0.5) (fmul (Fin sigma) (Fin sigma)))) (Fin T);
               tmp2 = map (fmul (fmul (Fin sigma) (fsqrt (Fin T)))) mynormals1;
               tmp3 = map (fmul (fmul (Fin sigma) (fsqrt (Fin T)))) mynormals2;
               stockprice1 = map (\<lambda>t. fmul (Fin S0) (fexp (fadd tmp1 t))) tmp2;
               stockprice2 = map (\<lambda>t. fmul (Fin S0) (fexp (fadd tmp1 t))) tmp3;
               allstockprices = stockprice1 @ stockprice2
           in Inr ((stockprice1, stockprice2, allstockprices), g')))"

definition bs_call_av ::
  "(fl \<Rightarrow> fl) \<Rightarrow> rng \<Rightarrow> real \<Rightarrow> real \<Rightarrow> real \<Rightarrow> real \<Rightarrow> real \<Rightarrow> int \<Rightarrow> real
     \<Rightarrow> error + (cv_result \<times> rng)" where
  "bs_call_av ppf g S0 K T r sigma halfsamplesize myepsilon =
     (case terminal_stockprice_av g S0 T r sigma halfsamplesize of
        Inl e \<Rightarrow> Inl e
      | Inr (mystockprices, g') \<Rightarrow>
          (let payoffs1 = map (\<lambda>s. fmaximum (fsub s (Fin K)) (Fin 0)) (fst mystockprices);
               payoffs2 = map (\<lambda>s. fmaximum (fsub s (Fin K)) (Fin 0)) (fst (snd mystockprices));
               discpayoffs1 = map (fmul (fexp (fmul (fneg (Fin r)) (Fin T)))) payoffs1;
               discpayoffs2 = map (fmul (fexp (fmul (fneg (Fin r)) (Fin T)))) payoffs2;
               thecov = np_cov01 1 discpayoffs1 discpayoffs2;
               possiblereduction = fdiv thecov (Fin (real_of_int (2 * halfsamplesize)));
               discpayoffs = discpayoffs1 @ discpayoffs2;
               price = np_mean discpayoffs;
               standarddev_rv = np_std 1 discpayoffs;
               standarddev_avest =
                 fdiv standarddev_rv (fsqrt (Fin (real_of_int (2 * halfsamplesize))));
               aepsilon = ppf (fsub (Fin 1) (fmul (Fin myepsilon) (Fin 0.5)));
               ci_left = fsub price (fmul aepsilon standarddev_avest);
               ci_right = fadd price (fmul aepsilon standarddev_avest)
           in Inr ((price, standarddev_avest, ci_left, ci_right, possiblereduction), g')))"

section \<open>The sensitivity sweep\<close>

text \<open>
  The loop of the sweep cell writes \<open>rho[i]\<close> and \<open>rhosquared[i]\<close> for every
  \<open>i\<close> in \<open>range(numberofk)\<close>. An index outside one of the three arrays raises
  \<open>IndexError\<close> in Python. The global variables of the two cells (\<open>S0\<close>, \<open>T\<close>,
  \<open>r\<close>, \<open>sigma\<close>, \<open>samplesize\<close>, \<open>numberofk\<close> and \<open>strikes\<close>, which the
  notebook sets to \<open>50\<close>, \<open>0.25\<close>, \<open>0.05\<close>, \<open>0.3\<close>, \<open>200000\<close>, \<open>100\<close> and
  \<open>np.linspace(0, 80, 100)\<close>) are parameters of \<open>sweep\<close>.
\<close>

definition np_zeros :: "nat \<Rightarrow> fl list" where
  "np_zeros n = replicate n (Fin 0)"

definition np_linspace :: "real \<Rightarrow> real \<Rightarrow> nat \<Rightarrow> fl list" where
  "np_linspace start stop num =
     (if num = 1 then [Fin start]
      else map (\<lambda>i. Fin (start + real i * ((stop - start) / real (num - 1)))) [0..<num])"

definition sweep_body :: "fl list \<Rightarrow> real \<Rightarrow> real \<Rightarrow> fl \<Rightarrow> fl" where
  "sweep_body mystockprice r T k =
     (let payoffs = map (\<lambda>s. fmaximum (fsub s k) (Fin 0)) mystockprice;
          discountedpayoffs = map (fmul (fexp (fmul (fneg (Fin r)) (Fin T)))) payoffs;
          ys = discountedpayoffs;
          xs = map (fmul (fexp (fmul (fneg (Fin r)) (Fin T)))) mystockprice
      in np_corrcoef01 xs ys)"

fun sweep_loop ::
  "fl list \<Rightarrow> real \<Rightarrow> real \<Rightarrow> fl list \<Rightarrow> nat list \<Rightarrow> fl list \<times> fl list
     \<Rightarrow> error + (fl list \<times> fl list)" where
  "sweep_loop mystockprice r T strikes [] st = Inr st"
| "sweep_loop mystockprice r T strikes (i # is) (rho, rhosquared) =
     (if length strikes \<le> i \<or> length rho \<le> i \<or> length rhosquared \<le> i
      then Inl IndexError
      else
        (let k = strikes ! i;
             rho' = rho[i := sweep_body mystockprice r T k];
             rhosquared' = rhosquared[i := fmul (rho' ! i) (rho' ! i)]
         in sweep_loop mystockprice r T strikes is (rho', rhosquared')))"

definition sweep ::
  "rng \<Rightarrow> real \<Rightarrow> real \<Rightarrow> real \<Rightarrow> real \<Rightarrow> int \<Rightarrow> nat \<Rightarrow> fl list
     \<Rightarrow> error + ((fl list \<times> fl list) \<times> rng)" where
  "sweep g S0 T r sigma samplesize numberofk strikes =
     (let rhosquared = np_zeros numberofk;
          rho = np_zeros numberofk
      in case terminal_stockprice g S0 T r sigma samplesize of
           Inl e \<Rightarrow> Inl e
         | Inr (myst, g') \<Rightarrow>
             (let mystockprice = myst
              in case sweep_loop mystockprice r T strikes [0..<numberofk] (rho, rhosquared) of
                   Inl e \<Rightarrow> Inl e
                 | Inr res \<Rightarrow> Inr (res, g')))"

section \<open>The estimators as the specification words them\<close>

text \<open>
  The formulas of the specification, over the real numbers: the lognormal terminal
  price, the discounted call payoff, and the unbiased sample statistics.
\<close>

definition gbm_terminal :: "real \<Rightarrow> real \<Rightarrow> real \<Rightarrow> real \<Rightarrow> real \<Rightarrow> real" where
  "gbm_terminal S0 r sigma T x = S0 * exp ((r - sigma\<^sup>2 / 2) * T + sigma * sqrt T * x)"

definition discounted_payoff :: "real \<Rightarrow> real \<Rightarrow> real \<Rightarrow> real \<Rightarrow> real" where
  "discounted_payoff r T K s = exp (- r * T) * max (s - K) 0"

definition sample_mean :: "real list \<Rightarrow> real" where
  "sample_mean ys = sum_list ys / real (length ys)"

definition sample_var :: "real list \<Rightarrow> real" where
  "sample_var ys = (\<Sum>y\<leftarrow>ys. (y - sample_mean ys)\<^sup>2) / (real (length ys) - 1)"

definition sample_stdev :: "real list \<Rightarrow> real" where
  "sample_stdev ys = sqrt (sample_var ys)"

definition sample_cov :: "real list \<Rightarrow> real list \<Rightarrow> real" where
  "sample_cov xs ys =
     (\<Sum>(x, y)\<leftarrow>zip xs ys. (x - sample_mean xs) * (y - sample_mean ys))
       / (real (length xs) - 1)"

text \<open>The terminal prices of the first \<open>n\<close> draws, and the stream after \<open>n\<close> draws.\<close>

definition sample_prices :: "rng \<Rightarrow> real \<Rightarrow> real \<Rightarrow> real \<Rightarrow> real \<Rightarrow> nat \<Rightarrow> real list" where
  "sample_prices g S0 r sigma T n = map (\<lambda>i. gbm_terminal S0 r sigma T (g i)) [0..<n]"

definition advance :: "rng \<Rightarrow> nat \<Rightarrow> rng" where
  "advance g n = (\<lambda>i. g (n + i))"

text \<open>
  The invariant of an estimation result, with the comparisons of the floats
  (\<open>==\<close> is false on \<open>NaN\<close>).
\<close>

definition feq :: "fl \<Rightarrow> fl \<Rightarrow> bool" where
  "feq a b = (fle a b \<and> fle b a)"

definition ci_invariant :: "fl \<Rightarrow> fl \<Rightarrow> fl \<Rightarrow> fl \<Rightarrow> bool" where
  "ci_invariant price stderr ci_low ci_high =
     (fle ci_low price \<and> fle price ci_high \<and> fle (Fin 0) stderr \<and>
      feq (fsub price ci_low) (fsub ci_high price))"

text \<open>The entry \<open>rhosquared[i]\<close> of the arrays that the sweep returns.\<close>

definition rhosquared_at :: "error + ((fl list \<times> fl list) \<times> rng) \<Rightarrow> nat \<Rightarrow> error + fl" where
  "rhosquared_at res i =
     (case res of Inl e \<Rightarrow> Inl e | Inr ((rho, rhosquared), g') \<Rightarrow> Inr (rhosquared ! i))"

section \<open>The notebook in rounded arithmetic\<close>

text \<open>
  A second reading of the same cells, in which no arithmetic result is exact. An
  arithmetic \<open>A\<close> gives the rounding \<open>rnd A\<close> of the exact result of \<open>+\<close>, \<open>-\<close>,
  \<open>*\<close>, \<open>/\<close> and \<open>sqrt\<close> on finite operands (IEEE 754 rounds these correctly; a
  result beyond the largest float rounds to an infinity, a tiny one to zero), the value
  \<open>exp_fl A a\<close> of \<open>np.exp\<close> on a finite float, the outcome \<open>square_py A a\<close> of
  the Python power \<open>a ** 2\<close> on a finite Python float (Python raises
  \<open>OverflowError\<close> where the power overflows), the value \<open>square_np A a\<close> of the
  same power on a finite NumPy scalar (C's \<open>pow\<close>, which need not round correctly;
  where it overflows NumPy warns and goes on), and the reductions \<open>sum_fl A\<close>
  (\<open>np.add.reduce\<close>, whose order of additions NumPy chooses) and \<open>dot_fl A\<close>
  (\<open>np.dot\<close>). On \<open>NaN\<close> and the infinities
  the operations are those of the first reading. An integer that enters a float
  operation is converted by \<open>rnd A\<close>. Zero has no sign here; the divisors of these
  cells are counts, square roots, sample variances and their products, whose zero is \<open>+0.0\<close>.
\<close>

record arith =
  rnd :: "real \<Rightarrow> fl"
  exp_fl :: "real \<Rightarrow> fl"
  square_py :: "real \<Rightarrow> error + fl"
  square_np :: "real \<Rightarrow> fl"
  sum_fl :: "fl list \<Rightarrow> fl"
  dot_fl :: "fl list \<Rightarrow> fl list \<Rightarrow> fl"

fun gadd :: "arith \<Rightarrow> fl \<Rightarrow> fl \<Rightarrow> fl" where
  "gadd A (Fin a) (Fin b) = rnd A (a + b)"
| "gadd A a b = fadd a b"

definition gsub :: "arith \<Rightarrow> fl \<Rightarrow> fl \<Rightarrow> fl" where
  "gsub A a b = gadd A a (fneg b)"

fun gmul :: "arith \<Rightarrow> fl \<Rightarrow> fl \<Rightarrow> fl" where
  "gmul A (Fin a) (Fin b) = rnd A (a * b)"
| "gmul A a b = fmul a b"

fun gdiv :: "arith \<Rightarrow> fl \<Rightarrow> fl \<Rightarrow> fl" where
  "gdiv A (Fin a) (Fin b) = (if b \<noteq> 0 then rnd A (a / b) else fdiv (Fin a) (Fin b))"
| "gdiv A a b = fdiv a b"

fun gsqrt :: "arith \<Rightarrow> fl \<Rightarrow> fl" where
  "gsqrt A (Fin a) = (if a < 0 then NaN else rnd A (sqrt a))"
| "gsqrt A a = fsqrt a"

fun gexp :: "arith \<Rightarrow> fl \<Rightarrow> fl" where
  "gexp A (Fin a) = exp_fl A a"
| "gexp A a = fexp a"

fun gsquare :: "arith \<Rightarrow> fl \<Rightarrow> fl" where
  "gsquare A (Fin a) = square_np A a"
| "gsquare A PInf = PInf"
| "gsquare A MInf = PInf"
| "gsquare A NaN = NaN"

definition of_int_fl :: "arith \<Rightarrow> int \<Rightarrow> fl" where
  "of_int_fl A k = rnd A (real_of_int k)"

definition np_mean_fp :: "arith \<Rightarrow> fl list \<Rightarrow> fl" where
  "np_mean_fp A a = gdiv A (sum_fl A a) (of_int_fl A (int (length a)))"

definition np_var_fp :: "arith \<Rightarrow> int \<Rightarrow> fl list \<Rightarrow> fl" where
  "np_var_fp A ddof a =
     (let rcount = int (length a);
          arrmean = gdiv A (sum_fl A a) (of_int_fl A rcount);
          x = map (\<lambda>v. gsub A v arrmean) a;
          x2 = map (\<lambda>v. gmul A v v) x;
          ret = sum_fl A x2;
          rcount' = max (rcount - ddof) 0
      in gdiv A ret (of_int_fl A rcount'))"

definition np_std_fp :: "arith \<Rightarrow> int \<Rightarrow> fl list \<Rightarrow> fl" where
  "np_std_fp A ddof a = gsqrt A (np_var_fp A ddof a)"

definition np_cov_entry_fp :: "arith \<Rightarrow> int \<Rightarrow> fl list \<Rightarrow> fl list \<Rightarrow> fl" where
  "np_cov_entry_fp A ddof u v =
     (let avgu = np_mean_fp A u;
          avgv = np_mean_fp A v;
          fact = int (length u) - ddof;
          fact' = (if fact \<le> 0 then Fin 0 else of_int_fl A fact);
          xu = map (\<lambda>a. gsub A a avgu) u;
          xv = map (\<lambda>a. gsub A a avgv) v;
          c = dot_fl A xu xv
      in gmul A c (gdiv A (Fin 1) fact'))"

definition np_cov01_fp :: "arith \<Rightarrow> int \<Rightarrow> fl list \<Rightarrow> fl list \<Rightarrow> fl" where
  "np_cov01_fp A ddof x y = np_cov_entry_fp A ddof x y"

definition np_corrcoef01_fp :: "arith \<Rightarrow> fl list \<Rightarrow> fl list \<Rightarrow> fl" where
  "np_corrcoef01_fp A x y =
     (let c00 = np_cov_entry_fp A 1 x x;
          c01 = np_cov_entry_fp A 1 x y;
          c11 = np_cov_entry_fp A 1 y y;
          stddev0 = gsqrt A c00;
          stddev1 = gsqrt A c11;
          c = gdiv A (gdiv A c01 stddev0) stddev1
      in np_clip c (Fin (- 1)) (Fin 1))"

definition terminal_stockprice_fp ::
  "arith \<Rightarrow> rng \<Rightarrow> real \<Rightarrow> real \<Rightarrow> real \<Rightarrow> real \<Rightarrow> int \<Rightarrow> error + (fl list \<times> rng)" where
  "terminal_stockprice_fp A g S0 T r sigma samplesize =
     (case standard_normal g samplesize of
        Inl e \<Rightarrow> Inl e
      | Inr (mystandardnormalsample, g') \<Rightarrow>
          (case square_py A sigma of
             Inl e \<Rightarrow> Inl e
           | Inr sigma2 \<Rightarrow>
               (let tmp1 = gmul A (gsub A (Fin r) (gmul A (Fin 0.5) sigma2)) (Fin T);
                    tmp2 = map (gmul A (gmul A (Fin sigma) (gsqrt A (Fin T))))
                             mystandardnormalsample;
                    stockprice = map (\<lambda>t. gmul A (Fin S0) (gexp A (gadd A tmp1 t))) tmp2
                in Inr (stockprice, g'))))"

definition bs_call_mc_fp ::
  "arith \<Rightarrow> (fl \<Rightarrow> fl) \<Rightarrow> rng \<Rightarrow> real \<Rightarrow> real \<Rightarrow> real \<Rightarrow> real \<Rightarrow> real \<Rightarrow> int \<Rightarrow> real
     \<Rightarrow> error + (mc_result \<times> rng)" where
  "bs_call_mc_fp A ppf g S0 K T r sigma samplesize myepsilon =
     (case terminal_stockprice_fp A g S0 T r sigma samplesize of
        Inl e \<Rightarrow> Inl e
      | Inr (mystockprice, g') \<Rightarrow>
          (let payoffs = map (\<lambda>s. fmaximum (gsub A s (Fin K)) (Fin 0)) mystockprice;
               discountedpayoffs = map (gmul A (gexp A (gmul A (fneg (Fin r)) (Fin T)))) payoffs;
               price = np_mean_fp A discountedpayoffs;
               standarddev_rv = np_std_fp A 1 discountedpayoffs;
               standarddev_mcest = gdiv A standarddev_rv (gsqrt A (of_int_fl A samplesize));
               aepsilon = ppf (gsub A (Fin 1) (gmul A (Fin myepsilon) (Fin 0.5)));
               ci_left = gsub A price (gmul A aepsilon standarddev_mcest);
               ci_right = gadd A price (gmul A aepsilon standarddev_mcest)
           in Inr ((price, standarddev_mcest, ci_left, ci_right), g')))"

definition bs_call_cv_fp ::
  "arith \<Rightarrow> (fl \<Rightarrow> fl) \<Rightarrow> rng \<Rightarrow> real \<Rightarrow> real \<Rightarrow> real \<Rightarrow> real \<Rightarrow> real \<Rightarrow> int \<Rightarrow> real
     \<Rightarrow> error + (cv_result \<times> rng)" where
  "bs_call_cv_fp A ppf g S0 K T r sigma samplesize myepsilon =
     (case terminal_stockprice_fp A g S0 T r sigma samplesize of
        Inl e \<Rightarrow> Inl e
      | Inr (mystockprice, g') \<Rightarrow>
          (let payoffs = map (\<lambda>s. fmaximum (gsub A s (Fin K)) (Fin 0)) mystockprice;
               discountedpayoffs = map (gmul A (gexp A (gmul A (fneg (Fin r)) (Fin T)))) payoffs;
               xs = map (gmul A (gexp A (gmul A (fneg (Fin r)) (Fin T)))) mystockprice;
               bstar = gdiv A (np_cov01_fp A 1 xs discountedpayoffs) (np_var_fp A 1 xs);
               z = map2 (gsub A) discountedpayoffs
                     (map (gmul A bstar) (map (\<lambda>x. gsub A x (Fin S0)) xs));
               price = np_mean_fp A z;
               standarddev_rv = np_std_fp A 1 z;
               standarddev_cvest = gdiv A standarddev_rv (gsqrt A (of_int_fl A samplesize));
               aepsilon = ppf (gsub A (Fin 1) (gmul A (Fin myepsilon) (Fin 0.5)));
               ci_left = gsub A price (gmul A aepsilon standarddev_cvest);
               ci_right = gadd A price (gmul A aepsilon standarddev_cvest);
               tmpcov = np_cov01_fp A 1 xs discountedpayoffs;
               tmpvarx = np_var_fp A 1 xs;
               tmpvary = np_var_fp A 1 discountedpayoffs;
               rhosquared = gdiv A (gsquare A tmpcov) (gmul A tmpvarx tmpvary)
           in Inr ((price, standarddev_cvest, ci_left, ci_right, rhosquared), g')))"

definition terminal_stockprice_av_fp ::
  "arith \<Rightarrow> rng \<Rightarrow> real \<Rightarrow> real \<Rightarrow> real \<Rightarrow> real \<Rightarrow> int
     \<Rightarrow> error + ((fl list \<times> fl list \<times> fl list) \<times> rng)" where
  "terminal_stockprice_av_fp A g S0 T r sigma halfsamplesize =
     (case standard_normal g halfsamplesize of
        Inl e \<Rightarrow> Inl e
      | Inr (mynormals1, g') \<Rightarrow>
          (case square_py A sigma of
             Inl e \<Rightarrow> Inl e
           | Inr sigma2 \<Rightarrow>
               (let mynormals2 = map fneg mynormals1;
                    tmp1 = gmul A (gsub A (Fin r) (gmul A (Fin 0.5) sigma2)) (Fin T);
                    tmp2 = map (gmul A (gmul A (Fin sigma) (gsqrt A (Fin T)))) mynormals1;
                    tmp3 = map (gmul A (gmul A (Fin sigma) (gsqrt A (Fin T)))) mynormals2;
                    stockprice1 = map (\<lambda>t. gmul A (Fin S0) (gexp A (gadd A tmp1 t))) tmp2;
                    stockprice2 = map (\<lambda>t. gmul A (Fin S0) (gexp A (gadd A tmp1 t))) tmp3;
                    allstockprices = stockprice1 @ stockprice2
                in Inr ((stockprice1, stockprice2, allstockprices), g'))))"

definition bs_call_av_fp ::
  "arith \<Rightarrow> (fl \<Rightarrow> fl) \<Rightarrow> rng \<Rightarrow> real \<Rightarrow> real \<Rightarrow> real \<Rightarrow> real \<Rightarrow> real \<Rightarrow> int \<Rightarrow> real
     \<Rightarrow> error + (cv_result \<times> rng)" where
  "bs_call_av_fp A ppf g S0 K T r sigma halfsamplesize myepsilon =
     (case terminal_stockprice_av_fp A g S0 T r sigma halfsamplesize of
        Inl e \<Rightarrow> Inl e
      | Inr (mystockprices, g') \<Rightarrow>
          (let payoffs1 = map (\<lambda>s. fmaximum (gsub A s (Fin K)) (Fin 0)) (fst mystockprices);
               payoffs2 = map (\<lambda>s. fmaximum (gsub A s (Fin K)) (Fin 0)) (fst (snd mystockprices));
               discpayoffs1 = map (gmul A (gexp A (gmul A (fneg (Fin r)) (Fin T)))) payoffs1;
               discpayoffs2 = map (gmul A (gexp A (gmul A (fneg (Fin r)) (Fin T)))) payoffs2;
               thecov = np_cov01_fp A 1 discpayoffs1 discpayoffs2;
               possiblereduction = gdiv A thecov (of_int_fl A (2 * halfsamplesize));
               discpayoffs = discpayoffs1 @ discpayoffs2;
               price = np_mean_fp A discpayoffs;
               standarddev_rv = np_std_fp A 1 discpayoffs;
               standarddev_avest =
                 gdiv A standarddev_rv (gsqrt A (of_int_fl A (2 * halfsamplesize)));
               aepsilon = ppf (gsub A (Fin 1) (gmul A (Fin myepsilon) (Fin 0.5)));
               ci_left = gsub A price (gmul A aepsilon standarddev_avest);
               ci_right = gadd A price (gmul A aepsilon standarddev_avest)
           in Inr ((price, standarddev_avest, ci_left, ci_right, possiblereduction), g')))"

definition sweep_body_fp :: "arith \<Rightarrow> fl list \<Rightarrow> real \<Rightarrow> real \<Rightarrow> fl \<Rightarrow> fl" where
  "sweep_body_fp A mystockprice r T k =
     (let payoffs = map (\<lambda>s. fmaximum (gsub A s k) (Fin 0)) mystockprice;
          discountedpayoffs = map (gmul A (gexp A (gmul A (fneg (Fin r)) (Fin T)))) payoffs;
          ys = discountedpayoffs;
          xs = map (gmul A (gexp A (gmul A (fneg (Fin r)) (Fin T)))) mystockprice
      in np_corrcoef01_fp A xs ys)"

fun sweep_loop_fp ::
  "arith \<Rightarrow> fl list \<Rightarrow> real \<Rightarrow> real \<Rightarrow> fl list \<Rightarrow> nat list \<Rightarrow> fl list \<times> fl list
     \<Rightarrow> error + (fl list \<times> fl list)" where
  "sweep_loop_fp A mystockprice r T strikes [] st = Inr st"
| "sweep_loop_fp A mystockprice r T strikes (i # is) (rho, rhosquared) =
     (if length strikes \<le> i \<or> length rho \<le> i \<or> length rhosquared \<le> i
      then Inl IndexError
      else
        (let k = strikes ! i;
             rho' = rho[i := sweep_body_fp A mystockprice r T k];
             rhosquared' = rhosquared[i := gsquare A (rho' ! i)]
         in sweep_loop_fp A mystockprice r T strikes is (rho', rhosquared')))"

definition sweep_fp ::
  "arith \<Rightarrow> rng \<Rightarrow> real \<Rightarrow> real \<Rightarrow> real \<Rightarrow> real \<Rightarrow> int \<Rightarrow> nat \<Rightarrow> fl list
     \<Rightarrow> error + ((fl list \<times> fl list) \<times> rng)" where
  "sweep_fp A g S0 T r sigma samplesize numberofk strikes =
     (let rhosquared = np_zeros numberofk;
          rho = np_zeros numberofk
      in case terminal_stockprice_fp A g S0 T r sigma samplesize of
           Inl e \<Rightarrow> Inl e
         | Inr (myst, g') \<Rightarrow>
             (let mystockprice = myst
              in case sweep_loop_fp A mystockprice r T strikes [0..<numberofk] (rho, rhosquared) of
                   Inl e \<Rightarrow> Inl e
                 | Inr res \<Rightarrow> Inr (res, g')))"

text \<open>
  What the theorems below assume of an arithmetic, all of it true of IEEE 754 binary64
  with round-to-nearest and of NumPy: rounding is monotone, exact at \<open>0\<close> and \<open>1\<close> and
  on every value that is itself a rounded result; \<open>np.exp\<close> of a finite float is a
  non-negative float or \<open>+inf\<close>; the square of a finite NumPy scalar is a non-negative
  float or \<open>+inf\<close>, zero at zero and at most \<open>1\<close> on \<open>[-1, 1]\<close>; a sum over an array
  that holds a \<open>NaN\<close> is \<open>NaN\<close>.
\<close>

definition ieee :: "arith \<Rightarrow> bool" where
  "ieee A =
     ((\<forall>x y. x \<le> y \<longrightarrow> fle (rnd A x) (rnd A y)) \<and>
      rnd A 0 = Fin 0 \<and> rnd A 1 = Fin 1 \<and>
      (\<forall>x y. rnd A x = Fin y \<longrightarrow> rnd A y = Fin y) \<and>
      (\<forall>a. fle (Fin 0) (exp_fl A a)) \<and>
      (\<forall>a. fle (Fin 0) (square_np A a)) \<and> square_np A 0 = Fin 0 \<and>
      (\<forall>a. - 1 \<le> a \<and> a \<le> 1 \<longrightarrow> fle (square_np A a) (Fin 1)) \<and>
      (\<forall>xs. NaN \<in> set xs \<longrightarrow> sum_fl A xs = NaN))"

text \<open>Exact arithmetic is one such arithmetic; in it the two readings coincide.\<close>

definition exact :: arith where
  "exact = \<lparr>rnd = Fin, exp_fl = (\<lambda>a. Fin (exp a)), square_py = (\<lambda>a. Inr (Fin (a * a))),
             square_np = (\<lambda>a. Fin (a * a)), sum_fl = np_sum, dot_fl = np_dot\<rparr>"

text \<open>
  The coefficient \<open>b*\<close> that \<open>bs_call_cv\<close> computes from the sampled prices: its
  assignments to \<open>payoffs\<close>, \<open>discountedpayoffs\<close>, \<open>xs\<close> and \<open>bstar\<close>.
\<close>

definition cv_bstar_fp :: "arith \<Rightarrow> real \<Rightarrow> real \<Rightarrow> real \<Rightarrow> fl list \<Rightarrow> fl" where
  "cv_bstar_fp A K T r mystockprice =
     (let payoffs = map (\<lambda>s. fmaximum (gsub A s (Fin K)) (Fin 0)) mystockprice;
          discountedpayoffs = map (gmul A (gexp A (gmul A (fneg (Fin r)) (Fin T)))) payoffs;
          xs = map (gmul A (gexp A (gmul A (fneg (Fin r)) (Fin T)))) mystockprice
      in gdiv A (np_cov01_fp A 1 xs discountedpayoffs) (np_var_fp A 1 xs))"

text \<open>
  The invariant of an estimation result in rounded arithmetic: the bounds enclose the
  price, the standard error is not negative, and both bounds are the price minus and
  plus one and the same non-negative half-width \<open>z * stderr\<close>, each rounded once.
\<close>

definition ci_rounded :: "arith \<Rightarrow> real \<Rightarrow> fl \<Rightarrow> fl \<Rightarrow> fl \<Rightarrow> fl \<Rightarrow> bool" where
  "ci_rounded A z price stderr ci_low ci_high =
     (fle ci_low price \<and> fle price ci_high \<and> fle (Fin 0) stderr \<and>
      fle (Fin 0) (gmul A (Fin z) stderr) \<and>
      ci_low = gsub A price (gmul A (Fin z) stderr) \<and>
      ci_high = gadd A price (gmul A (Fin z) stderr))"

section \<open>Binary64 arithmetic\<close>

text \<open>
  The finite numbers of IEEE 754 binary64 are \<open>m * 2^e\<close> with an integer \<open>m\<close> of
  magnitude below \<open>2^53\<close> and \<open>-1074 \<le> e \<le> 971\<close>. \<open>rnd64\<close> rounds a real number to
  the nearest of them, a tie to the one whose significand is even; from
  \<open>2^1024 - 2^970\<close> on, half a step beyond the largest float, the result is an
  infinity. \<open>float_below x\<close> and \<open>float_above x\<close> are the neighbours of \<open>x\<close> among
  the floats.
\<close>

definition binary64 :: "real set" where
  "binary64 =
     (\<lambda>(m, e). real_of_int m * 2 powi e) ` ({- (2 ^ 53 - 1) .. 2 ^ 53 - 1} \<times> {- 1074 .. 971})"

definition maxfloat :: real where
  "maxfloat = (2 ^ 53 - 1) * 2 ^ 971"

definition float_below :: "real \<Rightarrow> real" where
  "float_below x = Max {f \<in> binary64. f \<le> x}"

definition float_above :: "real \<Rightarrow> real" where
  "float_above x = Min {f \<in> binary64. x \<le> f}"

definition even64 :: "real \<Rightarrow> bool" where
  "even64 f = (\<exists>m e. f = real_of_int m * 2 powi e \<and> even m \<and> - 1074 \<le> e \<and> e \<le> 971 \<and>
                 (2 ^ 52 \<le> \<bar>m\<bar> \<and> \<bar>m\<bar> < 2 ^ 53 \<or> e = - 1074 \<and> \<bar>m\<bar> < 2 ^ 52))"

definition nearest :: "real \<Rightarrow> real" where
  "nearest x =
     (let d = float_below x; u = float_above x
      in if x - d < u - x then d
         else if u - x < x - d then u
         else if even64 d then d else u)"

definition rnd64 :: "real \<Rightarrow> fl" where
  "rnd64 x =
     (if 2 ^ 1024 - 2 ^ 970 \<le> x then PInf
      else if x \<le> - (2 ^ 1024 - 2 ^ 970) then MInf
      else Fin (nearest (max (- maxfloat) (min maxfloat x))))"

text \<open>
  \<open>float64\<close> is the arithmetic with this rounding in which \<open>exp\<close> and the two powers
  are correctly rounded and sums are taken from left to right. NumPy's library
  functions may differ from it in the last bit and in the order of the additions; the
  clauses of \<open>ieee\<close> hold of them as they hold of \<open>float64\<close>.
\<close>

fun add64 :: "fl \<Rightarrow> fl \<Rightarrow> fl" where
  "add64 (Fin a) (Fin b) = rnd64 (a + b)"
| "add64 a b = fadd a b"

fun mul64 :: "fl \<Rightarrow> fl \<Rightarrow> fl" where
  "mul64 (Fin a) (Fin b) = rnd64 (a * b)"
| "mul64 a b = fmul a b"

definition float64 :: arith where
  "float64 =
     \<lparr>rnd = rnd64,
      exp_fl = (\<lambda>a. rnd64 (exp a)),
      square_py = (\<lambda>a. if rnd64 (a * a) = PInf then Inl OverflowError else Inr (rnd64 (a * a))),
      square_np = (\<lambda>a. rnd64 (a * a)),
      sum_fl = foldl add64 (Fin 0),
      dot_fl = (\<lambda>u v. foldl add64 (Fin 0) (map2 mul64 u v))\<rparr>"

section \<open>Arrays of finite values\<close>

text \<open>
  On arrays whose entries are all finite, the NumPy reductions compute the sample
  statistics over the reals.
\<close>

lemma np_sum_Fin: "np_sum (map (\<lambda>x. Fin (f x)) xs) = Fin (\<Sum>x\<leftarrow>xs. f x)"
  by (induction xs) simp_all

lemma np_mean_Fin:
  "xs \<noteq> [] \<Longrightarrow> np_mean (map (\<lambda>x. Fin (f x)) xs) = Fin (sample_mean (map f xs))"
  by (simp add: np_mean_def np_sum_Fin sample_mean_def)

lemma np_var_Fin:
  assumes "2 \<le> length xs"
  shows "np_var 1 (map (\<lambda>x. Fin (f x)) xs) = Fin (sample_var (map f xs))"
proof -
  have n: "real (length xs) \<noteq> 0" "real (length xs) - 1 \<noteq> 0"
    "max (int (length xs) - 1) 0 = int (length xs) - 1"
    using assms by auto
  show ?thesis
    unfolding np_var_def Let_def
    using n
    by (simp add: np_sum_Fin fsub_def comp_def sample_var_def sample_mean_def power2_eq_square)
qed

lemma sample_var_nonneg: "2 \<le> length rs \<Longrightarrow> 0 \<le> sample_var rs"
  unfolding sample_var_def
  by (intro divide_nonneg_nonneg sum_list_nonneg) auto

lemma np_std_Fin:
  "2 \<le> length xs \<Longrightarrow> np_std 1 (map (\<lambda>x. Fin (f x)) xs) = Fin (sample_stdev (map f xs))"
  using sample_var_nonneg[of "map f xs"]
  by (simp add: np_std_def np_var_Fin sample_stdev_def)

lemma np_cov01_Fin:
  assumes "2 \<le> length xs"
  shows "np_cov01 1 (map (\<lambda>x. Fin (f x)) xs) (map (\<lambda>x. Fin (h x)) xs)
         = Fin (sample_cov (map f xs) (map h xs))"
proof -
  have n: "xs \<noteq> []" "\<not> int (length xs) - 1 \<le> 0" "real (length xs) - 1 \<noteq> 0"
    using assms by auto
  show ?thesis
    unfolding np_cov01_def np_cov_entry_def np_dot_def Let_def
    using n
    by (simp add: np_mean_Fin fsub_def comp_def zip_map_map zip_same_conv_map np_sum_Fin
        sample_cov_def)
qed

lemma terminal_stockprice_Fin:
  assumes "0 \<le> n" "0 \<le> T"
  shows "terminal_stockprice g S0 T r sigma n =
         Inr (map (\<lambda>i. Fin (gbm_terminal S0 r sigma T (g i))) [0..<nat n], advance g (nat n))"
  using assms
  by (simp add: terminal_stockprice_def standard_normal_def Let_def fsub_def comp_def
      gbm_terminal_def advance_def power2_eq_square algebra_simps)

lemma payoff_Fin: "fmaximum (fsub (Fin s) (Fin K)) (Fin 0) = Fin (max (s - K) 0)"
  by (simp add: fsub_def max_def)

lemma ppf_arg: "fsub (Fin 1) (fmul (Fin eps) (Fin 0.5)) = Fin (1 - eps / 2)"
  by (simp add: fsub_def)

lemma terminal_stockprice_av_Fin:
  assumes "0 \<le> h" "0 \<le> T"
  shows "terminal_stockprice_av g S0 T r sigma h =
         Inr ((map (\<lambda>i. Fin (gbm_terminal S0 r sigma T (g i))) [0..<nat h],
               map (\<lambda>i. Fin (gbm_terminal S0 r sigma T (- g i))) [0..<nat h],
               map (\<lambda>i. Fin (gbm_terminal S0 r sigma T (g i))) [0..<nat h]
                 @ map (\<lambda>i. Fin (gbm_terminal S0 r sigma T (- g i))) [0..<nat h]),
              advance g (nat h))"
  using assms
  by (simp add: terminal_stockprice_av_def standard_normal_def Let_def fsub_def comp_def
      gbm_terminal_def advance_def power2_eq_square algebra_simps)

lemma append_Fin:
  "map (\<lambda>x. Fin (f x)) xs @ map (\<lambda>x. Fin (h x)) ys = map (\<lambda>v. Fin v) (map f xs @ map h ys)"
  by simp

text \<open>A sample of variance zero is constant, and its covariance with any sample is zero.\<close>

lemma sum_list_squares_zero:
  "(\<Sum>x\<leftarrow>xs. (f x)\<^sup>2) = (0::real) \<Longrightarrow> x \<in> set xs \<Longrightarrow> f x = 0"
proof (induction xs)
  case Nil
  then show ?case by simp
next
  case (Cons a xs)
  have nn: "0 \<le> (\<Sum>x\<leftarrow>xs. (f x)\<^sup>2)" by (intro sum_list_nonneg) auto
  have "(f a)\<^sup>2 + (\<Sum>x\<leftarrow>xs. (f x)\<^sup>2) = 0" using Cons.prems(1) by simp
  with nn have "(f a)\<^sup>2 = 0" "(\<Sum>x\<leftarrow>xs. (f x)\<^sup>2) = 0"
    by (simp_all add: add_nonneg_eq_0_iff)
  with Cons show ?case by auto
qed

lemma sample_var_zero_const:
  assumes "2 \<le> length xs" "sample_var (map f xs) = 0" "x \<in> set xs"
  shows "f x = sample_mean (map f xs)"
proof -
  have "real (length xs) - 1 \<noteq> 0" using assms(1) by auto
  with assms(2) have "(\<Sum>x\<leftarrow>xs. (f x - sample_mean (map f xs))\<^sup>2) = 0"
    by (simp add: sample_var_def comp_def)
  from sum_list_squares_zero[OF this assms(3)] show ?thesis by simp
qed

lemma sum_list_all_zero: "(\<And>x. x \<in> set xs \<Longrightarrow> f x = (0::real)) \<Longrightarrow> (\<Sum>x\<leftarrow>xs. f x) = 0"
  by (induction xs) simp_all

lemma sample_cov_maps:
  "sample_cov (map f xs) (map h xs)
   = (\<Sum>x\<leftarrow>xs. (f x - sample_mean (map f xs)) * (h x - sample_mean (map h xs)))
       / (real (length xs) - 1)"
  by (simp add: sample_cov_def zip_map_map zip_same_conv_map comp_def)

lemma sample_cov_zero_right:
  assumes "2 \<le> length xs" "sample_var (map h xs) = 0"
  shows "sample_cov (map f xs) (map h xs) = 0"
  unfolding sample_cov_maps
  using sample_var_zero_const[OF assms]
  by (simp add: sum_list_all_zero)

lemma sample_cov_zero_left:
  assumes "2 \<le> length xs" "sample_var (map f xs) = 0"
  shows "sample_cov (map f xs) (map h xs) = 0"
  unfolding sample_cov_maps
  using sample_var_zero_const[OF assms]
  by (simp add: sum_list_all_zero)

section \<open>Special values\<close>

text \<open>\<open>NaN\<close> propagates through the arithmetic, and the unbiased variance of fewer
  than two observations is \<open>0 / 0\<close>.\<close>

lemma fmul_NaN_right [simp]: "fmul a NaN = NaN" by (cases a) simp_all
lemma fadd_NaN_right [simp]: "fadd a NaN = NaN" by (cases a) simp_all
lemma fdiv_NaN_right [simp]: "fdiv a NaN = NaN" by (cases a) simp_all
lemma fsub_NaN_right [simp]: "fsub a NaN = NaN" by (simp add: fsub_def)
lemma fsub_NaN_left [simp]: "fsub NaN a = NaN" by (simp add: fsub_def)




lemma np_sum_NaN: "NaN \<in> set a \<Longrightarrow> np_sum a = NaN"
  by (induction a) auto

lemma np_mean_NaN: "NaN \<in> set a \<Longrightarrow> np_mean a = NaN"
  by (simp add: np_mean_def np_sum_NaN)

lemma np_var_NaN:
  assumes "NaN \<in> set a"
  shows "np_var ddof a = NaN"
proof -
  have m: "fdiv (np_sum a) (Fin (real_of_int (int (length a)))) = NaN"
    using assms by (simp add: np_sum_NaN)
  have "a \<noteq> []" using assms by auto
  then have "NaN \<in> set (map (\<lambda>v. fmul v v) (map (\<lambda>v. fsub v NaN) a))"
    by (cases a) simp_all
  then show ?thesis
    unfolding np_var_def Let_def m by (simp add: np_sum_NaN)
qed

lemma np_std_NaN: "NaN \<in> set a \<Longrightarrow> np_std ddof a = NaN"
  by (simp add: np_std_def np_var_NaN)

lemma sample_var_const: "sample_var (map (\<lambda>i. c) xs) = 0"
proof (cases "xs = []")
  case True
  then show ?thesis by (simp add: sample_var_def)
next
  case False
  then have "sample_mean (map (\<lambda>i. c) xs) = c"
    by (simp add: sample_mean_def sum_list_triv)
  then show ?thesis by (simp add: sample_var_def comp_def)
qed

section \<open>The estimators on finite samples\<close>

text \<open>
  What the three estimators return when every intermediate value is finite. The
  theorems on the estimators below are read off these three lemmas.
\<close>

lemma bs_call_mc_Fin:
  assumes "2 \<le> n" and "0 \<le> T" and "ppf (Fin (1 - eps / 2)) = Fin z"
  shows "bs_call_mc ppf g S0 K T r sigma n eps =
    (let Y = map (discounted_payoff r T K) (sample_prices g S0 r sigma T (nat n));
         price = sample_mean Y;
         stderr = sample_stdev Y / sqrt (real_of_int n)
     in Inr ((Fin price, Fin stderr, Fin (price - z * stderr), Fin (price + z * stderr)),
             advance g (nat n)))"
proof -
  let ?xs = "[0..<nat n]"
  let ?f = "\<lambda>i. discounted_payoff r T K (gbm_terminal S0 r sigma T (g i))"
  have len: "2 \<le> length ?xs" "?xs \<noteq> []" using assms(1) by auto
  have n0: "\<not> real_of_int n < 0" "sqrt (real_of_int n) \<noteq> 0" using assms(1) by auto
  have dp: "map (fmul (fexp (fmul (fneg (Fin r)) (Fin T))))
              (map (\<lambda>s. fmaximum (fsub s (Fin K)) (Fin 0))
                 (map (\<lambda>i. Fin (gbm_terminal S0 r sigma T (g i))) ?xs))
            = map (\<lambda>i. Fin (?f i)) ?xs"
    by (simp add: payoff_Fin discounted_payoff_def)
  have Y: "map (discounted_payoff r T K) (sample_prices g S0 r sigma T (nat n)) = map ?f ?xs"
    by (simp add: sample_prices_def)
  have ts: "terminal_stockprice g S0 T r sigma n =
         Inr (map (\<lambda>i. Fin (gbm_terminal S0 r sigma T (g i))) ?xs, advance g (nat n))"
    using assms(1,2) by (intro terminal_stockprice_Fin) auto
  show ?thesis
    unfolding bs_call_mc_def ts Y Let_def sum.case prod.case
    using n0
    by (simp only: dp np_mean_Fin[OF len(2)] np_std_Fin[OF len(1)] ppf_arg assms(3))
       (simp add: fsub_def)
qed

lemma bs_call_cv_Fin:
  assumes "2 \<le> n" and "0 \<le> T" and "ppf (Fin (1 - eps / 2)) = Fin z"
    and "sample_var (map (\<lambda>s. exp (- r * T) * s) (sample_prices g S0 r sigma T (nat n))) \<noteq> 0"
  shows "bs_call_cv ppf g S0 K T r sigma n eps =
    (let S = sample_prices g S0 r sigma T (nat n);
         X = map (\<lambda>s. exp (- r * T) * s) S;
         Y = map (discounted_payoff r T K) S;
         bstar = sample_cov X Y / sample_var X;
         Z = map2 (\<lambda>y x. y - bstar * (x - S0)) Y X;
         price = sample_mean Z;
         stderr = sample_stdev Z / sqrt (real_of_int n);
         rho_squared = (if sample_var Y = 0 then NaN
                        else Fin ((sample_cov X Y)\<^sup>2 / (sample_var X * sample_var Y)))
     in Inr ((Fin price, Fin stderr, Fin (price - z * stderr), Fin (price + z * stderr),
              rho_squared), advance g (nat n)))"
proof -
  let ?xs = "[0..<nat n]"
  let ?s = "\<lambda>i. gbm_terminal S0 r sigma T (g i)"
  let ?x = "\<lambda>i. exp (- r * T) * ?s i"
  let ?y = "\<lambda>i. discounted_payoff r T K (?s i)"
  let ?X = "map ?x ?xs" and ?Y = "map ?y ?xs"
  let ?b = "sample_cov ?X ?Y / sample_var ?X"
  let ?z = "\<lambda>i. ?y i - ?b * (?x i - S0)"
  have len: "2 \<le> length ?xs" "?xs \<noteq> []" using assms(1) by auto
  have n0: "\<not> real_of_int n < 0" "sqrt (real_of_int n) \<noteq> 0" using assms(1) by auto
  have X: "map (\<lambda>s. exp (- r * T) * s) (sample_prices g S0 r sigma T (nat n)) = ?X"
    by (simp add: sample_prices_def)
  have Y: "map (discounted_payoff r T K) (sample_prices g S0 r sigma T (nat n)) = ?Y"
    by (simp add: sample_prices_def)
  have vx: "sample_var ?X \<noteq> 0" using assms(4) X by simp
  have Z: "map2 (\<lambda>y x. y - ?b * (x - S0)) ?Y ?X = map ?z ?xs"
    by (simp add: zip_map_map zip_same_conv_map)
  have dp: "map (fmul (fexp (fmul (fneg (Fin r)) (Fin T))))
              (map (\<lambda>s. fmaximum (fsub s (Fin K)) (Fin 0))
                 (map (\<lambda>i. Fin (?s i)) ?xs))
            = map (\<lambda>i. Fin (?y i)) ?xs"
    by (simp add: payoff_Fin discounted_payoff_def)
  have cx: "map (fmul (fexp (fmul (fneg (Fin r)) (Fin T)))) (map (\<lambda>i. Fin (?s i)) ?xs)
            = map (\<lambda>i. Fin (?x i)) ?xs"
    by simp
  have bstar: "fdiv (Fin (sample_cov ?X ?Y)) (Fin (sample_var ?X)) = Fin ?b"
    using vx by simp
  have zz: "map2 fsub (map (\<lambda>i. Fin (?y i)) ?xs)
              (map (fmul (Fin ?b)) (map (\<lambda>x. fsub x (Fin S0)) (map (\<lambda>i. Fin (?x i)) ?xs)))
            = map (\<lambda>i. Fin (?z i)) ?xs"
    by (simp add: zip_map_map zip_same_conv_map fsub_def)
  have rho: "fdiv (fmul (Fin (sample_cov ?X ?Y)) (Fin (sample_cov ?X ?Y)))
               (fmul (Fin (sample_var ?X)) (Fin (sample_var ?Y)))
             = (if sample_var ?Y = 0 then NaN
                else Fin ((sample_cov ?X ?Y)\<^sup>2 / (sample_var ?X * sample_var ?Y)))"
    using vx sample_cov_zero_right[OF len(1), of ?y ?x]
    by (simp add: power2_eq_square)
  have ts: "terminal_stockprice g S0 T r sigma n =
         Inr (map (\<lambda>i. Fin (?s i)) ?xs, advance g (nat n))"
    using assms(1,2) by (intro terminal_stockprice_Fin) auto
  show ?thesis
    unfolding bs_call_cv_def ts X Y Let_def sum.case prod.case
    using n0
    by (simp only: dp cx np_cov01_Fin[OF len(1)] np_var_Fin[OF len(1)] bstar zz Z rho
          np_mean_Fin[OF len(2)] np_std_Fin[OF len(1)] ppf_arg assms(3))
       (simp add: fsub_def)
qed

lemma bs_call_av_Fin:
  assumes "1 \<le> h" and "0 \<le> T" and "ppf (Fin (1 - eps / 2)) = Fin z"
  shows "bs_call_av ppf g S0 K T r sigma h eps =
    (let xs = [0..<nat h];
         y1 = (\<lambda>i. discounted_payoff r T K (gbm_terminal S0 r sigma T (g i)));
         y2 = (\<lambda>i. discounted_payoff r T K (gbm_terminal S0 r sigma T (- g i)));
         Y = map y1 xs @ map y2 xs;
         price = sample_mean Y;
         stderr = sample_stdev Y / sqrt (real_of_int (2 * h))
     in Inr ((Fin price, Fin stderr, Fin (price - z * stderr), Fin (price + z * stderr),
              fdiv (np_cov01 1 (map (\<lambda>i. Fin (y1 i)) xs) (map (\<lambda>i. Fin (y2 i)) xs))
                (Fin (real_of_int (2 * h)))),
             advance g (nat h)))"
proof -
  let ?xs = "[0..<nat h]"
  let ?s1 = "\<lambda>i. gbm_terminal S0 r sigma T (g i)"
  let ?s2 = "\<lambda>i. gbm_terminal S0 r sigma T (- g i)"
  let ?y1 = "\<lambda>i. discounted_payoff r T K (?s1 i)"
  let ?y2 = "\<lambda>i. discounted_payoff r T K (?s2 i)"
  let ?Y = "map ?y1 ?xs @ map ?y2 ?xs"
  have len: "2 \<le> length ?Y" "?Y \<noteq> []" using assms(1) by auto
  have n0: "\<not> real_of_int (2 * h) < 0" "sqrt (real_of_int (2 * h)) \<noteq> 0"
    using assms(1) by auto
  have ts: "terminal_stockprice_av g S0 T r sigma h =
         Inr ((map (\<lambda>i. Fin (?s1 i)) ?xs, map (\<lambda>i. Fin (?s2 i)) ?xs,
               map (\<lambda>i. Fin (?s1 i)) ?xs @ map (\<lambda>i. Fin (?s2 i)) ?xs), advance g (nat h))"
    using assms(1,2) by (intro terminal_stockprice_av_Fin) auto
  have dp1: "map (fmul (fexp (fmul (fneg (Fin r)) (Fin T))))
              (map (\<lambda>s. fmaximum (fsub s (Fin K)) (Fin 0)) (map (\<lambda>i. Fin (?s1 i)) ?xs))
            = map (\<lambda>i. Fin (?y1 i)) ?xs"
    by (simp add: payoff_Fin discounted_payoff_def)
  have dp2: "map (fmul (fexp (fmul (fneg (Fin r)) (Fin T))))
              (map (\<lambda>s. fmaximum (fsub s (Fin K)) (Fin 0)) (map (\<lambda>i. Fin (?s2 i)) ?xs))
            = map (\<lambda>i. Fin (?y2 i)) ?xs"
    by (simp add: payoff_Fin discounted_payoff_def)
  have mean: "np_mean (map (\<lambda>v. Fin v) ?Y) = Fin (sample_mean ?Y)"
    using np_mean_Fin[OF len(2), of "\<lambda>v. v"] by simp
  have std: "np_std 1 (map (\<lambda>v. Fin v) ?Y) = Fin (sample_stdev ?Y)"
    using np_std_Fin[OF len(1), of "\<lambda>v. v"] by simp
  show ?thesis
    unfolding bs_call_av_def ts Let_def sum.case prod.case fst_conv snd_conv
    using n0
    by (simp only: dp1 dp2 append_Fin mean std ppf_arg assms(3))
       (simp add: fsub_def)
qed

text \<open>The control-variate estimator on a control of sample variance zero.\<close>

lemma bs_call_cv_zero_var:
  assumes "2 \<le> n" and "0 \<le> T"
    and "sample_var (map (\<lambda>s. exp (- r * T) * s) (sample_prices g S0 r sigma T (nat n))) = 0"
  shows "bs_call_cv ppf g S0 K T r sigma n eps =
           Inr ((NaN, NaN, NaN, NaN, NaN), advance g (nat n))"
proof -
  let ?xs = "[0..<nat n]"
  let ?s = "\<lambda>i. gbm_terminal S0 r sigma T (g i)"
  let ?x = "\<lambda>i. exp (- r * T) * ?s i"
  let ?y = "\<lambda>i. discounted_payoff r T K (?s i)"
  let ?X = "map ?x ?xs" and ?Y = "map ?y ?xs"
  have len: "2 \<le> length ?xs" "?xs \<noteq> []" using assms(1) by auto
  have X: "map (\<lambda>s. exp (- r * T) * s) (sample_prices g S0 r sigma T (nat n)) = ?X"
    by (simp add: sample_prices_def)
  have vx: "sample_var ?X = 0" using assms(3) X by simp
  have cv: "sample_cov ?X ?Y = 0" using sample_cov_zero_left[OF len(1) vx] .
  have dp: "map (fmul (fexp (fmul (fneg (Fin r)) (Fin T))))
              (map (\<lambda>s. fmaximum (fsub s (Fin K)) (Fin 0))
                 (map (\<lambda>i. Fin (?s i)) ?xs))
            = map (\<lambda>i. Fin (?y i)) ?xs"
    by (simp add: payoff_Fin discounted_payoff_def)
  have cx: "map (fmul (fexp (fmul (fneg (Fin r)) (Fin T)))) (map (\<lambda>i. Fin (?s i)) ?xs)
            = map (\<lambda>i. Fin (?x i)) ?xs"
    by simp
  have bstar: "fdiv (Fin (sample_cov ?X ?Y)) (Fin (sample_var ?X)) = NaN"
    using vx cv by simp
  have zz: "map2 fsub (map (\<lambda>i. Fin (?y i)) ?xs)
              (map (fmul NaN) (map (\<lambda>x. fsub x (Fin S0)) (map (\<lambda>i. Fin (?x i)) ?xs)))
            = map (\<lambda>i. NaN) ?xs"
    by (simp add: zip_map_map zip_same_conv_map)
  have nan: "NaN \<in> set (map (\<lambda>i. NaN) ?xs)" using len(2) by (cases ?xs) simp_all
  have rho: "fdiv (fmul (Fin (sample_cov ?X ?Y)) (Fin (sample_cov ?X ?Y)))
               (fmul (Fin (sample_var ?X)) (Fin (sample_var ?Y))) = NaN"
    using vx cv by simp
  have ts: "terminal_stockprice g S0 T r sigma n =
         Inr (map (\<lambda>i. Fin (?s i)) ?xs, advance g (nat n))"
    using assms(1,2) by (intro terminal_stockprice_Fin) auto
  show ?thesis
    unfolding bs_call_cv_def ts Let_def sum.case prod.case
    by (simp only: dp cx np_cov01_Fin[OF len(1)] np_var_Fin[OF len(1)] bstar zz rho
          np_mean_NaN[OF nan] np_std_NaN[OF nan])
       simp
qed

lemma sigma_zero_control:
  "sample_var (map (\<lambda>s. exp (- r * T) * s) (sample_prices g S0 r 0 T n)) = 0"
proof -
  have "map (\<lambda>s. exp (- r * T) * s) (sample_prices g S0 r 0 T n)
        = map (\<lambda>i. exp (- r * T) * (S0 * exp (r * T))) [0..<n]"
    by (simp add: sample_prices_def gbm_terminal_def)
  then show ?thesis by (simp only: sample_var_const)
qed

section \<open>The sweep loop\<close>

text \<open>
  The loop over \<open>range(numberofk)\<close> fills both arrays entry by entry: afterwards
  \<open>rho[i]\<close> is the clipped correlation at \<open>strikes[i]\<close> and \<open>rhosquared[i]\<close> its
  square. In exact arithmetic, on a finite sample of at least two prices, the
  correlation is \<open>NaN\<close> exactly when one of the two sample variances is zero.
\<close>

lemma fold_update_upt:
  "k \<le> length a \<Longrightarrow> fold (\<lambda>i a. a[i := f i]) [0..<k] a = map f [0..<k] @ drop k a"
proof (induction k)
  case 0
  then show ?case by simp
next
  case (Suc k)
  then have k: "k < length a" by simp
  have "(map f [0..<k] @ drop k a)[k := f k] = map f [0..<k] @ (drop k a)[0 := f k]"
    by (simp add: list_update_append)
  also have "(drop k a)[0 := f k] = f k # drop (Suc k) a"
    using k by (simp add: Cons_nth_drop_Suc[symmetric])
  finally show ?case using Suc by simp
qed

lemma sweep_loop_fold:
  assumes "\<forall>i\<in>set js. i < length strikes \<and> i < length rho \<and> i < length rhosquared"
  shows "sweep_loop mys r T strikes js (rho, rhosquared) =
     Inr (fold (\<lambda>i a. a[i := sweep_body mys r T (strikes ! i)]) js rho,
          fold (\<lambda>i a. a[i := fmul (sweep_body mys r T (strikes ! i))
                                 (sweep_body mys r T (strikes ! i))]) js rhosquared)"
  using assms
proof (induction js arbitrary: rho rhosquared)
  case Nil
  then show ?case by simp
next
  case (Cons j js)
  then show ?case by (simp add: Let_def)
qed

lemma sweep_loop_upt:
  assumes "length strikes = n"
  shows "sweep_loop mys r T strikes [0..<n] (np_zeros n, np_zeros n) =
     Inr (map (\<lambda>i. sweep_body mys r T (strikes ! i)) [0..<n],
          map (\<lambda>i. fmul (sweep_body mys r T (strikes ! i))
                         (sweep_body mys r T (strikes ! i))) [0..<n])"
  using assms
  by (simp add: sweep_loop_fold np_zeros_def fold_update_upt)


lemma sample_cov_self: "sample_cov (map f xs) (map f xs) = sample_var (map f xs)"
  by (simp add: sample_cov_maps sample_var_def comp_def power2_eq_square)

lemma np_clip_Fin: "np_clip (Fin c) (Fin (- 1)) (Fin 1) = Fin (min (max c (- 1)) 1)"
  by (simp add: np_clip_def max_def min_def)

lemma np_clip_NaN: "np_clip NaN lo hi = NaN"
  by (simp add: np_clip_def)

lemma sweep_body_Fin:
  assumes "2 \<le> length xs"
  shows "sweep_body (map (\<lambda>i. Fin (s i)) xs) r T (Fin k) =
    (let X = map (\<lambda>i. exp (- r * T) * s i) xs;
         Y = map (\<lambda>i. discounted_payoff r T k (s i)) xs
     in if sample_var X = 0 \<or> sample_var Y = 0 then NaN
        else Fin (min (max (sample_cov X Y / sqrt (sample_var X) / sqrt (sample_var Y)) (- 1)) 1))"
proof -
  let ?x = "\<lambda>i. exp (- r * T) * s i"
  let ?y = "\<lambda>i. discounted_payoff r T k (s i)"
  let ?X = "map ?x xs" and ?Y = "map ?y xs"
  have dp: "map (fmul (fexp (fmul (fneg (Fin r)) (Fin T))))
              (map (\<lambda>s. fmaximum (fsub s (Fin k)) (Fin 0)) (map (\<lambda>i. Fin (s i)) xs))
            = map (\<lambda>i. Fin (?y i)) xs"
    by (simp add: payoff_Fin discounted_payoff_def)
  have cx: "map (fmul (fexp (fmul (fneg (Fin r)) (Fin T)))) (map (\<lambda>i. Fin (s i)) xs)
            = map (\<lambda>i. Fin (?x i)) xs"
    by simp
  have cov: "np_cov_entry 1 (map (\<lambda>i. Fin (f i)) xs) (map (\<lambda>i. Fin (h i)) xs)
             = Fin (sample_cov (map f xs) (map h xs))" for f h
    using np_cov01_Fin[OF assms, of f h] by (simp add: np_cov01_def)
  have vx: "0 \<le> sample_var ?X" and vy: "0 \<le> sample_var ?Y"
    using assms by (simp_all add: sample_var_nonneg)
  have body: "sweep_body (map (\<lambda>i. Fin (s i)) xs) r T (Fin k) =
      np_clip (fdiv (fdiv (Fin (sample_cov ?X ?Y)) (fsqrt (Fin (sample_var ?X))))
                 (fsqrt (Fin (sample_var ?Y)))) (Fin (- 1)) (Fin 1)"
    unfolding sweep_body_def np_corrcoef01_def Let_def
    by (simp only: dp cx cov sample_cov_self)
  consider (x0) "sample_var ?X = 0" | (y0) "sample_var ?X \<noteq> 0" "sample_var ?Y = 0"
    | (ok) "sample_var ?X \<noteq> 0" "sample_var ?Y \<noteq> 0"
    by blast
  then show ?thesis
  proof cases
    case x0
    then have "sample_cov ?X ?Y = 0" by (rule sample_cov_zero_left[OF assms])
    with x0 show ?thesis unfolding body Let_def by (simp add: np_clip_NaN)
  next
    case y0
    then have "sample_cov ?X ?Y = 0" using sample_cov_zero_right[OF assms] by blast
    with y0 vx show ?thesis unfolding body Let_def by (simp add: np_clip_NaN)
  next
    case ok
    with vx vy show ?thesis unfolding body Let_def by (simp add: np_clip_Fin)
  qed
qed

lemma sweep_result:
  assumes "0 \<le> samplesize" and "0 \<le> T" and "length strikes = numberofk"
  shows "sweep g S0 T r sigma samplesize numberofk strikes =
     (let mys = map (\<lambda>i. Fin (gbm_terminal S0 r sigma T (g i))) [0..<nat samplesize]
      in Inr ((map (\<lambda>i. sweep_body mys r T (strikes ! i)) [0..<numberofk],
               map (\<lambda>i. fmul (sweep_body mys r T (strikes ! i))
                              (sweep_body mys r T (strikes ! i))) [0..<numberofk]),
              advance g (nat samplesize)))"
  unfolding sweep_def Let_def terminal_stockprice_Fin[OF assms(1,2)] sum.case prod.case
    sweep_loop_upt[OF assms(3)]
  by simp

lemma rhosquared_at_sweep:
  assumes "0 \<le> samplesize" and "0 \<le> T" and "length strikes = numberofk" and "i < numberofk"
  shows "rhosquared_at (sweep g S0 T r sigma samplesize numberofk strikes) i =
     (let mys = map (\<lambda>i. Fin (gbm_terminal S0 r sigma T (g i))) [0..<nat samplesize]
      in Inr (fmul (sweep_body mys r T (strikes ! i)) (sweep_body mys r T (strikes ! i))))"
  unfolding sweep_result[OF assms(1,2,3)] rhosquared_at_def Let_def
  using assms(4) by simp

lemma np_linspace_last: "np_linspace 0 80 100 ! 99 = Fin 80"
  by (simp add: np_linspace_def)

text \<open>
  By the Cauchy-Schwarz inequality the sample correlation lies in \<open>[-1, 1]\<close>, so the
  clip of \<open>np.corrcoef\<close> leaves it as it is, and the square is
  \<open>Cov(X, Y)^2 / (Var(X) Var(Y))\<close>.
\<close>

lemma sum_list_quadratic:
  "(\<Sum>x\<leftarrow>xs. (t * a x - b x)\<^sup>2) =
     t\<^sup>2 * (\<Sum>x\<leftarrow>xs. (a x)\<^sup>2) - 2 * t * (\<Sum>x\<leftarrow>xs. a x * b x) + (\<Sum>x\<leftarrow>xs. (b x)\<^sup>2 :: real)"
  by (induction xs) (simp_all add: power2_eq_square algebra_simps)

lemma sum_list_cauchy_schwarz:
  "(\<Sum>x\<leftarrow>xs. a x * b x)\<^sup>2 \<le> (\<Sum>x\<leftarrow>xs. (a x)\<^sup>2) * (\<Sum>x\<leftarrow>xs. (b x)\<^sup>2 :: real)"
proof -
  let ?A = "\<Sum>x\<leftarrow>xs. (a x)\<^sup>2" and ?B = "\<Sum>x\<leftarrow>xs. (b x)\<^sup>2" and ?C = "\<Sum>x\<leftarrow>xs. a x * b x"
  have A: "0 \<le> ?A" by (intro sum_list_nonneg) auto
  show ?thesis
  proof (cases "?A = 0")
    case True
    then have "\<And>x. x \<in> set xs \<Longrightarrow> a x = 0" by (rule sum_list_squares_zero)
    then have "?C = 0" by (intro sum_list_all_zero) simp
    with True show ?thesis by simp
  next
    case False
    with A have pos: "0 < ?A" by simp
    have "0 \<le> (\<Sum>x\<leftarrow>xs. ((?C / ?A) * a x - b x)\<^sup>2)" by (intro sum_list_nonneg) auto
    also have "\<dots> = (?C / ?A)\<^sup>2 * ?A - 2 * (?C / ?A) * ?C + ?B" by (rule sum_list_quadratic)
    also have "\<dots> = ?B - ?C\<^sup>2 / ?A" using pos by (simp add: power2_eq_square field_simps)
    finally have "?C\<^sup>2 / ?A \<le> ?B" by simp
    then show ?thesis using pos by (simp add: field_simps)
  qed
qed

lemma sample_cov_sq_le:
  assumes "2 \<le> length xs"
  shows "(sample_cov (map f xs) (map h xs))\<^sup>2 \<le> sample_var (map f xs) * sample_var (map h xs)"
proof -
  let ?a = "\<lambda>x. f x - sample_mean (map f xs)" and ?b = "\<lambda>x. h x - sample_mean (map h xs)"
  let ?d = "real (length xs) - 1"
  have d: "0 < ?d" using assms by simp
  have "(sample_cov (map f xs) (map h xs))\<^sup>2 = (\<Sum>x\<leftarrow>xs. ?a x * ?b x)\<^sup>2 / ?d\<^sup>2"
    by (simp add: sample_cov_maps power_divide)
  also have "\<dots> \<le> ((\<Sum>x\<leftarrow>xs. (?a x)\<^sup>2) * (\<Sum>x\<leftarrow>xs. (?b x)\<^sup>2)) / ?d\<^sup>2"
    by (intro divide_right_mono sum_list_cauchy_schwarz) simp
  also have "\<dots> = sample_var (map f xs) * sample_var (map h xs)"
    by (simp add: sample_var_def comp_def power2_eq_square)
  finally show ?thesis .
qed

lemma clip_correlation:
  assumes "0 < vx" and "0 < vy" and "c\<^sup>2 \<le> vx * vy"
  shows "min (max (c / sqrt vx / sqrt vy) (- 1)) 1 * min (max (c / sqrt vx / sqrt vy) (- 1)) 1
         = c\<^sup>2 / (vx * vy)"
    and "c\<^sup>2 / (vx * vy) \<le> 1"
proof -
  define q where "q = c / sqrt vx / sqrt vy"
  have s: "0 < sqrt vx * sqrt vy" using assms(1,2) by simp
  have "\<bar>c\<bar> \<le> sqrt (vx * vy)"
    using assms(3) by (intro real_le_rsqrt) simp
  then have "\<bar>c\<bar> \<le> sqrt vx * sqrt vy" by (simp add: real_sqrt_mult)
  then have "\<bar>c\<bar> / (sqrt vx * sqrt vy) \<le> 1" using s by (simp add: field_simps)
  moreover have "\<bar>q\<bar> = \<bar>c\<bar> / (sqrt vx * sqrt vy)"
    using assms(1,2) by (simp add: q_def abs_mult)
  ultimately have "\<bar>q\<bar> \<le> 1" by simp
  then have "- 1 \<le> q" "q \<le> 1" by (simp_all add: abs_le_iff)
  then have clip: "min (max q (- 1)) 1 = q" by simp
  have "(sqrt vx * sqrt vy)\<^sup>2 = vx * vy"
    using assms(1,2) by (simp add: power_mult_distrib)
  moreover have "q * q = c\<^sup>2 / (sqrt vx * sqrt vy)\<^sup>2"
    by (simp add: q_def power2_eq_square)
  ultimately have "q * q = c\<^sup>2 / (vx * vy)" by simp
  with clip show "min (max (c / sqrt vx / sqrt vy) (- 1)) 1 * min (max (c / sqrt vx / sqrt vy) (- 1)) 1
         = c\<^sup>2 / (vx * vy)"
    unfolding q_def by simp
  show "c\<^sup>2 / (vx * vy) \<le> 1" using assms by simp
qed

lemma sweep_body_square:
  assumes "2 \<le> length xs"
  shows "fmul (sweep_body (map (\<lambda>i. Fin (s i)) xs) r T (Fin k))
              (sweep_body (map (\<lambda>i. Fin (s i)) xs) r T (Fin k)) =
    (let X = map (\<lambda>i. exp (- r * T) * s i) xs;
         Y = map (\<lambda>i. discounted_payoff r T k (s i)) xs
     in if sample_var X = 0 \<or> sample_var Y = 0 then NaN
        else Fin ((sample_cov X Y)\<^sup>2 / (sample_var X * sample_var Y)))"
proof -
  let ?X = "map (\<lambda>i. exp (- r * T) * s i) xs"
  let ?Y = "map (\<lambda>i. discounted_payoff r T k (s i)) xs"
  show ?thesis
  proof (cases "sample_var ?X = 0 \<or> sample_var ?Y = 0")
    case True
    then show ?thesis unfolding sweep_body_Fin[OF assms] Let_def by auto
  next
    case False
    have "0 \<le> sample_var ?X" "0 \<le> sample_var ?Y"
      using assms by (simp_all add: sample_var_nonneg)
    with False have v: "0 < sample_var ?X" "0 < sample_var ?Y" by simp_all
    have c: "(sample_cov ?X ?Y)\<^sup>2 \<le> sample_var ?X * sample_var ?Y"
      using sample_cov_sq_le[OF assms] .
    show ?thesis
      unfolding sweep_body_Fin[OF assms] Let_def
      using False by (simp only: if_False fmul.simps clip_correlation(1)[OF v c])
  qed
qed


section \<open>Signs and order in rounded arithmetic\<close>

lemma rnd_mono: "ieee A \<Longrightarrow> x \<le> y \<Longrightarrow> fle (rnd A x) (rnd A y)"
  by (simp add: ieee_def)

lemma rnd_nonneg: "ieee A \<Longrightarrow> 0 \<le> x \<Longrightarrow> fle (Fin 0) (rnd A x)"
  using rnd_mono[of A 0 x] by (simp add: ieee_def)

lemma rnd_le_one: "ieee A \<Longrightarrow> x \<le> 1 \<Longrightarrow> fle (rnd A x) (Fin 1)"
  using rnd_mono[of A x 1] by (simp add: ieee_def)

lemma rnd_not_NaN: "ieee A \<Longrightarrow> rnd A x \<noteq> NaN"
  using rnd_mono[of A x x] by auto




lemma gmul_pos_nonneg:
  "ieee A \<Longrightarrow> 0 < z \<Longrightarrow> fle (Fin 0) b \<Longrightarrow> fle (Fin 0) (gmul A (Fin z) b)"
  by (cases b) (auto simp add: rnd_nonneg)

lemma gsqrt_nonneg: "ieee A \<Longrightarrow> gsqrt A v = NaN \<or> fle (Fin 0) (gsqrt A v)"
  by (cases v) (auto simp add: rnd_nonneg)

lemma gdiv_nonneg:
  "ieee A \<Longrightarrow> fle (Fin 0) a \<Longrightarrow> fle (Fin 0) b \<Longrightarrow> gdiv A a b = NaN \<or> fle (Fin 0) (gdiv A a b)"
  by (cases a; cases b) (auto simp add: rnd_nonneg)

lemma gdiv_Fin_repr: "ieee A \<Longrightarrow> gdiv A a b = Fin p \<Longrightarrow> rnd A p = Fin p"
  by (cases a; cases b) (auto simp add: ieee_def split: if_splits)

lemma gsub_le:
  assumes "ieee A" and "rnd A p = Fin p" and "fle (Fin 0) h"
  shows "fle (gsub A (Fin p) h) (Fin p)"
proof (cases h)
  case (Fin d)
  with assms(3) have "p - d \<le> p" by simp
  from rnd_mono[OF assms(1) this] show ?thesis
    using Fin assms(2) by (simp add: gsub_def)
qed (insert assms(3), simp_all add: gsub_def)

lemma gadd_ge:
  assumes "ieee A" and "rnd A p = Fin p" and "fle (Fin 0) h"
  shows "fle (Fin p) (gadd A (Fin p) h)"
proof (cases h)
  case (Fin d)
  with assms(3) have "p \<le> p + d" by simp
  from rnd_mono[OF assms(1) this] show ?thesis
    using Fin assms(2) by simp
qed (insert assms(3), simp_all)

text \<open>\<open>NaN\<close> is absorbing in rounded arithmetic as well.\<close>

lemma gdiv_NaN_left [simp]: "gdiv A NaN b = NaN" by (cases b) simp_all
lemma gdiv_NaN_right [simp]: "gdiv A a NaN = NaN" by (cases a) simp_all
lemma gmul_NaN_left [simp]: "gmul A NaN b = NaN" by (cases b) simp_all
lemma gmul_NaN_right [simp]: "gmul A a NaN = NaN" by (cases a) simp_all
lemma gadd_NaN_left [simp]: "gadd A NaN b = NaN" by (cases b) simp_all
lemma gadd_NaN_right [simp]: "gadd A a NaN = NaN" by (cases a) simp_all
lemma gsub_NaN_left [simp]: "gsub A NaN b = NaN" by (simp add: gsub_def)
lemma gsub_NaN_right [simp]: "gsub A a NaN = NaN" by (simp add: gsub_def)

lemma ci_tail:
  assumes A: "ieee A" and z: "0 < z"
    and price: "gdiv A s c = Fin p"
    and se: "gdiv A (gsqrt A v) (gsqrt A q) \<noteq> NaN"
  shows "ci_rounded A z (Fin p) (gdiv A (gsqrt A v) (gsqrt A q))
           (gsub A (Fin p) (gmul A (Fin z) (gdiv A (gsqrt A v) (gsqrt A q))))
           (gadd A (Fin p) (gmul A (Fin z) (gdiv A (gsqrt A v) (gsqrt A q))))"
proof -
  let ?se = "gdiv A (gsqrt A v) (gsqrt A q)"
  have p: "rnd A p = Fin p" using gdiv_Fin_repr[OF A price] .
  have "gsqrt A v \<noteq> NaN" "gsqrt A q \<noteq> NaN" using se by auto
  then have "fle (Fin 0) (gsqrt A v)" "fle (Fin 0) (gsqrt A q)"
    using gsqrt_nonneg[OF A, of v] gsqrt_nonneg[OF A, of q] by auto
  then have nn: "fle (Fin 0) ?se" using gdiv_nonneg[OF A, of "gsqrt A v" "gsqrt A q"] se by auto
  have h: "fle (Fin 0) (gmul A (Fin z) ?se)" using gmul_pos_nonneg[OF A z nn] .
  show ?thesis
    unfolding ci_rounded_def
    using nn h gsub_le[OF A p h] gadd_ge[OF A p h] by simp
qed

lemma bs_call_mc_fp_result:
  assumes "bs_call_mc_fp A ppf g S0 K T r sigma n eps = Inr ((price, se, lo, hi), g')"
  obtains dp where "price = np_mean_fp A dp"
    and "se = gdiv A (np_std_fp A 1 dp) (gsqrt A (of_int_fl A n))"
    and "lo = gsub A price (gmul A (ppf (gsub A (Fin 1) (gmul A (Fin eps) (Fin 0.5)))) se)"
    and "hi = gadd A price (gmul A (ppf (gsub A (Fin 1) (gmul A (Fin eps) (Fin 0.5)))) se)"
  using assms unfolding bs_call_mc_fp_def Let_def
  by (auto split: sum.splits prod.splits)

lemma bs_call_cv_fp_result:
  assumes "bs_call_cv_fp A ppf g S0 K T r sigma n eps = Inr ((price, se, lo, hi, d), g')"
  obtains zs where "price = np_mean_fp A zs"
    and "se = gdiv A (np_std_fp A 1 zs) (gsqrt A (of_int_fl A n))"
    and "lo = gsub A price (gmul A (ppf (gsub A (Fin 1) (gmul A (Fin eps) (Fin 0.5)))) se)"
    and "hi = gadd A price (gmul A (ppf (gsub A (Fin 1) (gmul A (Fin eps) (Fin 0.5)))) se)"
  using assms unfolding bs_call_cv_fp_def Let_def
  by (auto split: sum.splits prod.splits)

lemma bs_call_av_fp_result:
  assumes "bs_call_av_fp A ppf g S0 K T r sigma h eps = Inr ((price, se, lo, hi, d), g')"
  obtains dp where "price = np_mean_fp A dp"
    and "se = gdiv A (np_std_fp A 1 dp) (gsqrt A (of_int_fl A (2 * h)))"
    and "lo = gsub A price (gmul A (ppf (gsub A (Fin 1) (gmul A (Fin eps) (Fin 0.5)))) se)"
    and "hi = gadd A price (gmul A (ppf (gsub A (Fin 1) (gmul A (Fin eps) (Fin 0.5)))) se)"
  using assms unfolding bs_call_av_fp_def Let_def
  by (auto split: sum.splits prod.splits)

section \<open>The samplers in rounded arithmetic\<close>




lemma terminal_stockprice_fp_eq:
  assumes "0 \<le> n" and "square_py A sigma = Inr q"
  shows "terminal_stockprice_fp A g S0 T r sigma n =
     Inr (map (\<lambda>i. gmul A (Fin S0)
                 (gexp A (gadd A (gmul A (gsub A (Fin r) (gmul A (Fin 0.5) q)) (Fin T))
                            (gmul A (gmul A (Fin sigma) (gsqrt A (Fin T))) (Fin (g i))))))
            [0..<nat n],
          advance g (nat n))"
  using assms
  by (simp add: terminal_stockprice_fp_def standard_normal_def Let_def comp_def advance_def)

lemma terminal_stockprice_av_fp_eq:
  assumes "0 \<le> n" and "square_py A sigma = Inr q"
  shows "terminal_stockprice_av_fp A g S0 T r sigma n =
     (let s1 = map (\<lambda>i. gmul A (Fin S0)
                 (gexp A (gadd A (gmul A (gsub A (Fin r) (gmul A (Fin 0.5) q)) (Fin T))
                            (gmul A (gmul A (Fin sigma) (gsqrt A (Fin T))) (Fin (g i))))))
            [0..<nat n];
          s2 = map (\<lambda>i. gmul A (Fin S0)
                 (gexp A (gadd A (gmul A (gsub A (Fin r) (gmul A (Fin 0.5) q)) (Fin T))
                            (gmul A (gmul A (Fin sigma) (gsqrt A (Fin T))) (Fin (- g i))))))
            [0..<nat n]
      in Inr ((s1, s2, s1 @ s2), advance g (nat n)))"
  using assms
  by (simp add: terminal_stockprice_av_fp_def standard_normal_def Let_def comp_def advance_def)

section \<open>The sweep in rounded arithmetic\<close>

lemma np_clip_range:
  "np_clip c (Fin (- 1)) (Fin 1) = NaN \<or>
   (\<exists>q. np_clip c (Fin (- 1)) (Fin 1) = Fin q \<and> - 1 \<le> q \<and> q \<le> 1)"
  by (cases c) (auto simp add: np_clip_def)

lemma square_range:
  assumes "ieee A" and "- 1 \<le> q" and "q \<le> 1"
  shows "fle (Fin 0) (gsquare A (Fin q)) \<and> fle (gsquare A (Fin q)) (Fin 1)"
  using assms by (simp add: ieee_def)

lemma sweep_loop_fp_fold:
  assumes "\<forall>i\<in>set js. i < length strikes \<and> i < length rho \<and> i < length rhosquared"
  shows "sweep_loop_fp A mys r T strikes js (rho, rhosquared) =
     Inr (fold (\<lambda>i a. a[i := sweep_body_fp A mys r T (strikes ! i)]) js rho,
          fold (\<lambda>i a. a[i := gsquare A (sweep_body_fp A mys r T (strikes ! i))]) js rhosquared)"
  using assms
proof (induction js arbitrary: rho rhosquared)
  case Nil
  then show ?case by simp
next
  case (Cons j js)
  then show ?case by (simp add: Let_def)
qed

lemma sweep_loop_fp_upt:
  assumes "length strikes = n"
  shows "sweep_loop_fp A mys r T strikes [0..<n] (np_zeros n, np_zeros n) =
     Inr (map (\<lambda>i. sweep_body_fp A mys r T (strikes ! i)) [0..<n],
          map (\<lambda>i. gsquare A (sweep_body_fp A mys r T (strikes ! i))) [0..<n])"
  using assms
  by (simp add: sweep_loop_fp_fold np_zeros_def fold_update_upt)

lemma sweep_fp_result:
  assumes "terminal_stockprice_fp A g S0 T r sigma samplesize = Inr (mys, g')"
    and "length strikes = numberofk"
  shows "sweep_fp A g S0 T r sigma samplesize numberofk strikes =
     Inr ((map (\<lambda>i. sweep_body_fp A mys r T (strikes ! i)) [0..<numberofk],
           map (\<lambda>i. gsquare A (sweep_body_fp A mys r T (strikes ! i))) [0..<numberofk]),
          g')"
  unfolding sweep_fp_def Let_def assms(1) sum.case prod.case sweep_loop_fp_upt[OF assms(2)]
  by simp

section \<open>The estimators in rounded arithmetic\<close>

text \<open>
  Each estimator returns whenever its sampler does, and a result with a finite price
  and a standard error that is a number satisfies the rounded invariant.
\<close>

lemma bs_call_mc_fp_returns:
  assumes "0 \<le> n" and "square_py A sigma = Inr q"
  shows "\<exists>res. bs_call_mc_fp A ppf g S0 K T r sigma n eps = Inr (res, advance g (nat n))"
  unfolding bs_call_mc_fp_def terminal_stockprice_fp_eq[OF assms] Let_def by simp

lemma bs_call_cv_fp_returns:
  assumes "0 \<le> n" and "square_py A sigma = Inr q"
  shows "\<exists>res. bs_call_cv_fp A ppf g S0 K T r sigma n eps = Inr (res, advance g (nat n))"
  unfolding bs_call_cv_fp_def terminal_stockprice_fp_eq[OF assms] Let_def by simp

lemma bs_call_av_fp_returns:
  assumes "0 \<le> h" and "square_py A sigma = Inr q"
  shows "\<exists>res. bs_call_av_fp A ppf g S0 K T r sigma h eps = Inr (res, advance g (nat h))"
  unfolding bs_call_av_fp_def terminal_stockprice_av_fp_eq[OF assms] Let_def by simp

lemma bs_call_mc_fp_ci:
  assumes "ieee A" and "ppf (gsub A (Fin 1) (gmul A (Fin eps) (Fin 0.5))) = Fin z" and "0 < z"
    and r: "bs_call_mc_fp A ppf g S0 K T r sigma n eps = Inr ((Fin p, se, lo, hi), g')"
    and se: "se \<noteq> NaN"
  shows "ci_rounded A z (Fin p) se lo hi"
  using r
proof (rule bs_call_mc_fp_result)
  fix dp
  assume 1: "Fin p = np_mean_fp A dp"
    and 2: "se = gdiv A (np_std_fp A 1 dp) (gsqrt A (of_int_fl A n))"
    and 3: "lo = gsub A (Fin p) (gmul A (ppf (gsub A (Fin 1) (gmul A (Fin eps) (Fin 0.5)))) se)"
    and 4: "hi = gadd A (Fin p) (gmul A (ppf (gsub A (Fin 1) (gmul A (Fin eps) (Fin 0.5)))) se)"
  from 1 have price: "gdiv A (sum_fl A dp) (of_int_fl A (int (length dp))) = Fin p"
    by (simp add: np_mean_fp_def)
  from se 2 have "gdiv A (gsqrt A (np_var_fp A 1 dp)) (gsqrt A (of_int_fl A n)) \<noteq> NaN"
    by (simp add: np_std_fp_def)
  from ci_tail[OF assms(1,3) price this] show ?thesis
    unfolding 2 3 4 assms(2) np_std_fp_def .
qed

lemma bs_call_cv_fp_ci:
  assumes "ieee A" and "ppf (gsub A (Fin 1) (gmul A (Fin eps) (Fin 0.5))) = Fin z" and "0 < z"
    and r: "bs_call_cv_fp A ppf g S0 K T r sigma n eps = Inr ((Fin p, se, lo, hi, d), g')"
    and se: "se \<noteq> NaN"
  shows "ci_rounded A z (Fin p) se lo hi"
  using r
proof (rule bs_call_cv_fp_result)
  fix dp
  assume 1: "Fin p = np_mean_fp A dp"
    and 2: "se = gdiv A (np_std_fp A 1 dp) (gsqrt A (of_int_fl A n))"
    and 3: "lo = gsub A (Fin p) (gmul A (ppf (gsub A (Fin 1) (gmul A (Fin eps) (Fin 0.5)))) se)"
    and 4: "hi = gadd A (Fin p) (gmul A (ppf (gsub A (Fin 1) (gmul A (Fin eps) (Fin 0.5)))) se)"
  from 1 have price: "gdiv A (sum_fl A dp) (of_int_fl A (int (length dp))) = Fin p"
    by (simp add: np_mean_fp_def)
  from se 2 have "gdiv A (gsqrt A (np_var_fp A 1 dp)) (gsqrt A (of_int_fl A n)) \<noteq> NaN"
    by (simp add: np_std_fp_def)
  from ci_tail[OF assms(1,3) price this] show ?thesis
    unfolding 2 3 4 assms(2) np_std_fp_def .
qed

lemma bs_call_av_fp_ci:
  assumes "ieee A" and "ppf (gsub A (Fin 1) (gmul A (Fin eps) (Fin 0.5))) = Fin z" and "0 < z"
    and r: "bs_call_av_fp A ppf g S0 K T r sigma h eps = Inr ((Fin p, se, lo, hi, d), g')"
    and se: "se \<noteq> NaN"
  shows "ci_rounded A z (Fin p) se lo hi"
  using r
proof (rule bs_call_av_fp_result)
  fix dp
  assume 1: "Fin p = np_mean_fp A dp"
    and 2: "se = gdiv A (np_std_fp A 1 dp) (gsqrt A (of_int_fl A (2 * h)))"
    and 3: "lo = gsub A (Fin p) (gmul A (ppf (gsub A (Fin 1) (gmul A (Fin eps) (Fin 0.5)))) se)"
    and 4: "hi = gadd A (Fin p) (gmul A (ppf (gsub A (Fin 1) (gmul A (Fin eps) (Fin 0.5)))) se)"
  from 1 have price: "gdiv A (sum_fl A dp) (of_int_fl A (int (length dp))) = Fin p"
    by (simp add: np_mean_fp_def)
  from se 2 have "gdiv A (gsqrt A (np_var_fp A 1 dp)) (gsqrt A (of_int_fl A (2 * h))) \<noteq> NaN"
    by (simp add: np_std_fp_def)
  from ci_tail[OF assms(1,3) price this] show ?thesis
    unfolding 2 3 4 assms(2) np_std_fp_def .
qed

section \<open>A coefficient that is not a number\<close>

lemma sum_fl_NaN: "ieee A \<Longrightarrow> NaN \<in> set xs \<Longrightarrow> sum_fl A xs = NaN"
  by (simp add: ieee_def)

lemma np_mean_fp_NaN: "ieee A \<Longrightarrow> NaN \<in> set a \<Longrightarrow> np_mean_fp A a = NaN"
  by (simp add: np_mean_fp_def sum_fl_NaN)

lemma np_std_fp_NaN:
  assumes "ieee A" and "NaN \<in> set a"
  shows "np_std_fp A ddof a = NaN"
proof -
  have m: "gdiv A (sum_fl A a) (of_int_fl A (int (length a))) = NaN"
    using assms by (simp add: sum_fl_NaN)
  have "a \<noteq> []" using assms(2) by auto
  then have "NaN \<in> set (map (\<lambda>v. gmul A v v) (map (\<lambda>v. gsub A v NaN) a))"
    by (cases a) simp_all
  then have "sum_fl A (map (\<lambda>v. gmul A v v) (map (\<lambda>v. gsub A v NaN) a)) = NaN"
    by (rule sum_fl_NaN[OF assms(1)])
  then show ?thesis
    unfolding np_std_fp_def np_var_fp_def Let_def m by simp
qed

lemma rho_squared_NaN:
  assumes "ieee A" and "gdiv A c v = NaN"
  shows "gdiv A (gsquare A c) (gmul A v w) = NaN"
proof -
  have z: "rnd A 0 = Fin 0" "square_np A 0 = Fin 0" using assms(1) by (simp_all add: ieee_def)
  have n: "rnd A x \<noteq> NaN" for x using rnd_not_NaN[OF assms(1)] .
  show ?thesis
    using assms(2) z n
    by (cases c; cases v; cases w) (auto split: if_splits)
qed

section \<open>Exact arithmetic as an instance\<close>

lemma exact_sel [simp]:
  "rnd exact = Fin" "exp_fl exact = (\<lambda>a. Fin (exp a))"
  "square_py exact = (\<lambda>a. Inr (Fin (a * a)))" "square_np exact = (\<lambda>a. Fin (a * a))"
  "sum_fl exact = np_sum" "dot_fl exact = np_dot"
  by (simp_all add: exact_def)

lemma gadd_exact [simp]: "gadd exact = fadd"
proof (intro ext)
  fix a b show "gadd exact a b = fadd a b" by (cases a; cases b) simp_all
qed

lemma gsub_exact [simp]: "gsub exact = fsub"
  by (intro ext) (simp add: gsub_def fsub_def)

lemma gmul_exact [simp]: "gmul exact = fmul"
proof (intro ext)
  fix a b show "gmul exact a b = fmul a b" by (cases a; cases b) simp_all
qed

lemma gdiv_exact [simp]: "gdiv exact = fdiv"
proof (intro ext)
  fix a b show "gdiv exact a b = fdiv a b" by (cases a; cases b) simp_all
qed

lemma gsqrt_exact [simp]: "gsqrt exact = fsqrt"
proof (intro ext)
  fix a show "gsqrt exact a = fsqrt a" by (cases a) simp_all
qed

lemma gexp_exact [simp]: "gexp exact = fexp"
proof (intro ext)
  fix a show "gexp exact a = fexp a" by (cases a) simp_all
qed

lemma gsquare_exact [simp]: "gsquare exact a = fmul a a"
  by (cases a) simp_all

lemma of_int_fl_exact [simp]: "of_int_fl exact k = Fin (real_of_int k)"
  by (simp add: of_int_fl_def)

lemma ieee_exact: "ieee exact"
proof -
  have "a * a \<le> 1" if "- 1 \<le> a" "a \<le> 1" for a :: real
  proof -
    from that have "\<bar>a\<bar> \<le> 1" by (simp add: abs_le_iff)
    then have "a\<^sup>2 \<le> 1" by (simp add: abs_square_le_1)
    then show ?thesis by (simp add: power2_eq_square)
  qed
  then show ?thesis by (simp add: ieee_def np_sum_NaN)
qed

lemma np_mean_fp_exact [simp]: "np_mean_fp exact a = np_mean a"
  by (simp add: np_mean_fp_def np_mean_def)

lemma np_var_fp_exact [simp]: "np_var_fp exact ddof a = np_var ddof a"
  by (simp add: np_var_fp_def np_var_def)

lemma np_std_fp_exact [simp]: "np_std_fp exact ddof a = np_std ddof a"
  by (simp add: np_std_fp_def np_std_def)

lemma np_cov_entry_fp_exact [simp]: "np_cov_entry_fp exact ddof u v = np_cov_entry ddof u v"
  by (simp add: np_cov_entry_fp_def np_cov_entry_def Let_def)

lemma np_cov01_fp_exact [simp]: "np_cov01_fp exact ddof u v = np_cov01 ddof u v"
  by (simp add: np_cov01_fp_def np_cov01_def)

lemma np_corrcoef01_fp_exact [simp]: "np_corrcoef01_fp exact x y = np_corrcoef01 x y"
  by (simp add: np_corrcoef01_fp_def np_corrcoef01_def)

lemma terminal_stockprice_fp_exact:
  "terminal_stockprice_fp exact g S0 T r sigma n = terminal_stockprice g S0 T r sigma n"
  by (simp add: terminal_stockprice_fp_def terminal_stockprice_def split: sum.splits)

lemma terminal_stockprice_av_fp_exact:
  "terminal_stockprice_av_fp exact g S0 T r sigma n = terminal_stockprice_av g S0 T r sigma n"
  by (simp add: terminal_stockprice_av_fp_def terminal_stockprice_av_def split: sum.splits)

lemma bs_call_mc_fp_exact:
  "bs_call_mc_fp exact ppf g S0 K T r sigma n eps = bs_call_mc ppf g S0 K T r sigma n eps"
  by (simp add: bs_call_mc_fp_def bs_call_mc_def terminal_stockprice_fp_exact Let_def
      split: sum.splits prod.splits)

lemma bs_call_cv_fp_exact:
  "bs_call_cv_fp exact ppf g S0 K T r sigma n eps = bs_call_cv ppf g S0 K T r sigma n eps"
  by (simp add: bs_call_cv_fp_def bs_call_cv_def terminal_stockprice_fp_exact Let_def
      split: sum.splits prod.splits)

lemma bs_call_av_fp_exact:
  "bs_call_av_fp exact ppf g S0 K T r sigma h eps = bs_call_av ppf g S0 K T r sigma h eps"
  by (simp add: bs_call_av_fp_def bs_call_av_def terminal_stockprice_av_fp_exact Let_def
      split: sum.splits prod.splits)

lemma sweep_body_fp_exact [simp]: "sweep_body_fp exact mys r T k = sweep_body mys r T k"
  by (simp add: sweep_body_fp_def sweep_body_def)

lemma sweep_loop_fp_exact:
  "sweep_loop_fp exact mys r T strikes js st = sweep_loop mys r T strikes js st"
proof (induction js arbitrary: st)
  case Nil
  then show ?case by simp
next
  case (Cons j js)
  then show ?case by (cases st) (simp add: Let_def)
qed

lemma sweep_fp_exact:
  "sweep_fp exact g S0 T r sigma n k strikes = sweep g S0 T r sigma n k strikes"
  by (simp add: sweep_fp_def sweep_def terminal_stockprice_fp_exact sweep_loop_fp_exact Let_def
      split: sum.splits prod.splits)

text \<open>A sample of three draws on which the prices are \<open>1\<close>, \<open>2\<close> and \<open>4\<close>.\<close>

lemma prices_124: "sample_prices (\<lambda>i. 1/2 + real i * ln 2) 1 0 1 1 3 = [1, 2, 4]"
proof -
  have "exp (2 * ln (2::real)) = 4"
    using exp_of_nat_mult[of 2 "ln (2::real)"] by simp
  then show ?thesis
    by (simp add: sample_prices_def gbm_terminal_def upt_rec exp_add exp_minus)
qed

text \<open>In exact arithmetic a control of sample variance zero gives \<open>b* = 0 / 0\<close>.\<close>

lemma cv_bstar_fp_zero_var:
  assumes "2 \<le> length xs"
    and "sample_var (map (\<lambda>i. exp (- r * T) * s i) xs) = 0"
  shows "cv_bstar_fp exact K T r (map (\<lambda>i. Fin (s i)) xs) = NaN"
proof -
  let ?x = "\<lambda>i. exp (- r * T) * s i"
  let ?y = "\<lambda>i. discounted_payoff r T K (s i)"
  have cv: "sample_cov (map ?x xs) (map ?y xs) = 0"
    using sample_cov_zero_left[OF assms] .
  have dp: "map (fmul (fexp (fmul (fneg (Fin r)) (Fin T))))
              (map (\<lambda>s. fmaximum (fsub s (Fin K)) (Fin 0)) (map (\<lambda>i. Fin (s i)) xs))
            = map (\<lambda>i. Fin (?y i)) xs"
    by (simp add: payoff_Fin discounted_payoff_def)
  have cx: "map (fmul (fexp (fmul (fneg (Fin r)) (Fin T)))) (map (\<lambda>i. Fin (s i)) xs)
            = map (\<lambda>i. Fin (?x i)) xs"
    by simp
  have bstar: "fdiv (Fin (sample_cov (map ?x xs) (map ?y xs))) (Fin (sample_var (map ?x xs))) = NaN"
    using assms(2) cv by simp
  show ?thesis
    unfolding cv_bstar_fp_def Let_def gmul_exact gexp_exact gsub_exact gdiv_exact
      np_cov01_fp_exact np_var_fp_exact
    by (simp only: dp cx np_cov01_Fin[OF assms(1)] np_var_Fin[OF assms(1)] bstar)
qed

section \<open>Binary64 rounding is such an arithmetic\<close>

lemma finite_binary64: "finite binary64"
  unfolding binary64_def by (intro finite_imageI finite_cartesian_product) simp_all

lemma binary64_I:
  "\<bar>m\<bar> \<le> 2 ^ 53 - 1 \<Longrightarrow> - 1074 \<le> e \<Longrightarrow> e \<le> 971 \<Longrightarrow> real_of_int m * 2 powi e \<in> binary64"
  unfolding binary64_def by (intro image_eqI[where x = "(m, e)"]) auto

lemma zero_binary64: "0 \<in> binary64"
  using binary64_I[of 0 0] by simp

lemma one_binary64: "1 \<in> binary64"
  using binary64_I[of 1 0] by simp

lemma maxfloat_binary64: "maxfloat \<in> binary64"
  using binary64_I[of "2 ^ 53 - 1" 971] by (simp add: maxfloat_def)

lemma minus_binary64: "f \<in> binary64 \<Longrightarrow> - f \<in> binary64"
proof -
  assume "f \<in> binary64"
  then obtain m e where f: "f = real_of_int m * 2 powi e"
    and m: "\<bar>m\<bar> \<le> 2 ^ 53 - 1" and e: "- 1074 \<le> e" "e \<le> 971"
    unfolding binary64_def by auto
  from binary64_I[of "- m" e] m e show ?thesis by (simp add: f)
qed

lemma binary64_le_maxfloat: "f \<in> binary64 \<Longrightarrow> f \<le> maxfloat"
proof -
  assume "f \<in> binary64"
  then obtain m e where f: "f = real_of_int m * 2 powi e"
    and m: "\<bar>m\<bar> \<le> 2 ^ 53 - 1" and e: "- 1074 \<le> e" "e \<le> 971"
    unfolding binary64_def by auto
  have p: "(2::real) powi e \<le> 2 powi 971" using e by (intro power_int_increasing) simp_all
  have p0: "0 < (2::real) powi e" by (simp add: zero_less_power_int)
  have "real_of_int m \<le> 2 ^ 53 - 1"
  proof -
    from m have "m \<le> 2 ^ 53 - 1" by simp
    then have "real_of_int m \<le> real_of_int (2 ^ 53 - 1)" by (rule of_int_le_iff[THEN iffD2])
    then show ?thesis by simp
  qed
  then have "real_of_int m * 2 powi e \<le> (2 ^ 53 - 1) * 2 powi e"
    using p0 by (simp add: mult_right_mono)
  also have "\<dots> \<le> (2 ^ 53 - 1) * 2 powi 971"
    using p by (simp add: mult_left_mono)
  finally show ?thesis by (simp add: f maxfloat_def)
qed

lemma binary64_ge_maxfloat: "f \<in> binary64 \<Longrightarrow> - maxfloat \<le> f"
  using binary64_le_maxfloat[OF minus_binary64, of f] by simp

lemma below_props:
  assumes "- maxfloat \<le> x"
  shows "float_below x \<in> binary64" "float_below x \<le> x" "\<And>f. f \<in> binary64 \<Longrightarrow> f \<le> x \<Longrightarrow> f \<le> float_below x"
proof -
  let ?S = "{f \<in> binary64. f \<le> x}"
  have fin: "finite ?S" using finite_binary64 by simp
  have ne: "?S \<noteq> {}" using assms minus_binary64[OF maxfloat_binary64] by auto
  from Max_in[OF fin ne] show "float_below x \<in> binary64" "float_below x \<le> x"
    by (simp_all add: float_below_def)
  show "\<And>f. f \<in> binary64 \<Longrightarrow> f \<le> x \<Longrightarrow> f \<le> float_below x"
    unfolding float_below_def using fin by (intro Max_ge) simp_all
qed

lemma above_props:
  assumes "x \<le> maxfloat"
  shows "float_above x \<in> binary64" "x \<le> float_above x" "\<And>f. f \<in> binary64 \<Longrightarrow> x \<le> f \<Longrightarrow> float_above x \<le> f"
proof -
  let ?S = "{f \<in> binary64. x \<le> f}"
  have fin: "finite ?S" using finite_binary64 by simp
  have ne: "?S \<noteq> {}" using assms maxfloat_binary64 by auto
  from Min_in[OF fin ne] show "float_above x \<in> binary64" "x \<le> float_above x"
    by (simp_all add: float_above_def)
  show "\<And>f. f \<in> binary64 \<Longrightarrow> x \<le> f \<Longrightarrow> float_above x \<le> f"
    unfolding float_above_def using fin by (intro Min_le) simp_all
qed

lemma nearest_cases: "nearest x = float_below x \<or> nearest x = float_above x"
  by (simp add: nearest_def Let_def)

lemma nearest_binary64:
  assumes "- maxfloat \<le> x" and "x \<le> maxfloat"
  shows "nearest x \<in> binary64"
  using nearest_cases[of x] below_props(1)[OF assms(1)] above_props(1)[OF assms(2)] by auto

lemma nearest_fixed:
  assumes "f \<in> binary64"
  shows "nearest f = f"
proof -
  have r: "- maxfloat \<le> f" "f \<le> maxfloat"
    using assms by (simp_all add: binary64_ge_maxfloat binary64_le_maxfloat)
  have "float_below f = f"
    using below_props(2,3)[OF r(1)] assms by (intro antisym) simp_all
  moreover have "float_above f = f"
    using above_props(2,3)[OF r(2)] assms by (intro antisym) simp_all
  ultimately show ?thesis using nearest_cases[of f] by auto
qed

lemma nearest_mono:
  assumes "- maxfloat \<le> x" and "x \<le> y" and "y \<le> maxfloat"
  shows "nearest x \<le> nearest y"
proof -
  have rx: "- maxfloat \<le> x" "x \<le> maxfloat" and ry: "- maxfloat \<le> y" "y \<le> maxfloat"
    using assms by simp_all
  note bx = below_props[OF rx(1)] and ax = above_props[OF rx(2)]
    and by' = below_props[OF ry(1)] and ay = above_props[OF ry(2)]
  have nx: "float_below x \<le> nearest x" "nearest x \<le> float_above x"
    using nearest_cases[of x] bx(2) ax(2) by auto
  have ny: "float_below y \<le> nearest y" "nearest y \<le> float_above y"
    using nearest_cases[of y] by'(2) ay(2) by auto
  show ?thesis
  proof (cases "float_above x \<le> float_below y")
    case True
    with nx ny show ?thesis by simp
  next
    case False
    have "float_below y \<le> x"
    proof (rule ccontr)
      assume "\<not> float_below y \<le> x"
      then have "float_above x \<le> float_below y" using ax(3)[OF by'(1)] by simp
      with False show False by simp
    qed
    then have "float_below y \<le> float_below x" using bx(3)[OF by'(1)] by simp
    moreover have "float_below x \<le> float_below y" using by'(3)[OF bx(1)] bx(2) assms(2) by simp
    ultimately have d: "float_below y = float_below x" by simp
    have "y \<le> float_above x"
    proof (rule ccontr)
      assume "\<not> y \<le> float_above x"
      then have "float_above x \<le> float_below y" using by'(3)[OF ax(1)] by simp
      with False show False by simp
    qed
    then have "float_above y \<le> float_above x" using ay(3)[OF ax(1)] by simp
    moreover have "float_above x \<le> float_above y" using ax(3)[OF ay(1)] ay(2) assms(2) by simp
    ultimately have u: "float_above y = float_above x" by simp
    show ?thesis
    proof (cases "x = y")
      case True
      then show ?thesis by simp
    next
      case False
      with assms(2) have "x < y" by simp
      then show ?thesis
        using bx(2) ax(2) unfolding nearest_def Let_def d u by auto
    qed
  qed
qed

lemma maxfloat_less: "maxfloat < 2 ^ 1024 - 2 ^ 970"
  by (simp add: maxfloat_def)

lemma rnd64_mono: "x \<le> y \<Longrightarrow> fle (rnd64 x) (rnd64 y)"
proof -
  assume xy: "x \<le> y"
  have mf: "- maxfloat \<le> maxfloat" using binary64_ge_maxfloat[OF maxfloat_binary64] .
  have "nearest (max (- maxfloat) (min maxfloat x)) \<le> nearest (max (- maxfloat) (min maxfloat y))"
    using xy mf by (intro nearest_mono) auto
  then show ?thesis using xy by (auto simp add: rnd64_def)
qed

lemma rnd64_binary64:
  assumes "f \<in> binary64"
  shows "rnd64 f = Fin f"
proof -
  have r: "- maxfloat \<le> f" "f \<le> maxfloat"
    using assms by (simp_all add: binary64_ge_maxfloat binary64_le_maxfloat)
  then have "max (- maxfloat) (min maxfloat f) = f" by simp
  then show ?thesis
    using r maxfloat_less nearest_fixed[OF assms] by (simp add: rnd64_def)
qed

lemma rnd64_range: "rnd64 x = Fin y \<Longrightarrow> y \<in> binary64"
proof -
  assume a: "rnd64 x = Fin y"
  have mf: "- maxfloat \<le> maxfloat" using binary64_ge_maxfloat[OF maxfloat_binary64] .
  have "nearest (max (- maxfloat) (min maxfloat x)) \<in> binary64"
    using mf by (intro nearest_binary64) auto
  with a show ?thesis by (auto simp add: rnd64_def split: if_splits)
qed

lemma rnd64_idem: "rnd64 x = Fin y \<Longrightarrow> rnd64 y = Fin y"
  by (rule rnd64_binary64, rule rnd64_range)

lemma ieee_binary64:
  assumes "\<forall>a. fle (Fin 0) (exp_fl B a)"
    and "\<forall>a. fle (Fin 0) (square_np B a)" and "square_np B 0 = Fin 0"
    and "\<forall>a. - 1 \<le> a \<and> a \<le> 1 \<longrightarrow> fle (square_np B a) (Fin 1)"
    and "\<forall>xs. NaN \<in> set xs \<longrightarrow> sum_fl B xs = NaN"
  shows "ieee (B\<lparr>rnd := rnd64\<rparr>)"
  using assms rnd64_mono rnd64_idem rnd64_binary64[OF zero_binary64] rnd64_binary64[OF one_binary64]
  unfolding ieee_def by simp

lemma float64_sel [simp]:
  "rnd float64 = rnd64" "exp_fl float64 = (\<lambda>a. rnd64 (exp a))"
  "square_py float64 = (\<lambda>a. if rnd64 (a * a) = PInf then Inl OverflowError else Inr (rnd64 (a * a)))"
  "square_np float64 = (\<lambda>a. rnd64 (a * a))"
  "sum_fl float64 = foldl add64 (Fin 0)"
  "dot_fl float64 = (\<lambda>u v. foldl add64 (Fin 0) (map2 mul64 u v))"
  by (simp_all add: float64_def)

lemma rnd64_zero [simp]: "rnd64 0 = Fin 0"
  by (rule rnd64_binary64[OF zero_binary64])

lemma rnd64_one [simp]: "rnd64 1 = Fin 1"
  by (rule rnd64_binary64[OF one_binary64])

lemma rnd64_nonneg: "0 \<le> x \<Longrightarrow> fle (Fin 0) (rnd64 x)"
  using rnd64_mono[of 0 x] by simp

lemma rnd64_not_NaN: "rnd64 x \<noteq> NaN"
  using rnd64_mono[of x x] by auto

lemma add64_NaN_left [simp]: "add64 NaN b = NaN" by (cases b) simp_all

lemma add64_NaN_right [simp]: "add64 a NaN = NaN" by (cases a) simp_all

lemma foldl_add64_NaN: "foldl add64 NaN xs = NaN"
  by (induction xs) simp_all

lemma sum64_NaN: "NaN \<in> set xs \<Longrightarrow> foldl add64 acc xs = NaN"
proof (induction xs arbitrary: acc)
  case Nil
  then show ?case by simp
next
  case (Cons x xs)
  then show ?case by (cases "x = NaN") (simp_all add: foldl_add64_NaN)
qed

lemma ieee_float64: "ieee float64"
proof -
  have sq: "fle (rnd64 (a * a)) (Fin 1)" if "- 1 \<le> a" "a \<le> 1" for a :: real
  proof -
    from that have "\<bar>a\<bar> \<le> 1" by (simp add: abs_le_iff)
    then have "a\<^sup>2 \<le> 1" by (simp add: abs_square_le_1)
    then have "a * a \<le> 1" by (simp add: power2_eq_square)
    from rnd64_mono[OF this] show ?thesis by simp
  qed
  show ?thesis
    unfolding ieee_def
    using rnd64_mono rnd64_idem sq by (simp add: rnd64_nonneg sum64_NaN)
qed


lemma exp_ge_two_power: "2 ^ n \<le> exp (real n)"
proof -
  have "(2::real) \<le> exp 1" using exp_ge_add_one_self[of 1] by simp
  then have "(2::real) ^ n \<le> exp 1 ^ n" by (intro power_mono) simp_all
  also have "\<dots> = exp (real n)" using exp_of_nat_mult[of n "1::real"] by simp
  finally show ?thesis .
qed


text \<open>Below half the smallest float a positive number rounds to zero.\<close>

lemma binary64_pos_ge:
  assumes "f \<in> binary64" and "0 < f"
  shows "2 powi (- 1074) \<le> f"
proof -
  from assms(1) obtain m e where f: "f = real_of_int m * 2 powi e"
    and e: "- 1074 \<le> e" "e \<le> 971"
    unfolding binary64_def by auto
  have p0: "0 < (2::real) powi e" by (simp add: zero_less_power_int)
  from assms(2) have "0 < real_of_int m" unfolding f using p0 by (simp add: zero_less_mult_iff)
  then have "1 \<le> m" by simp
  then have m1: "1 \<le> real_of_int m" by simp
  have "(2::real) powi (- 1074) \<le> 2 powi e" using e by (intro power_int_increasing) simp_all
  also have "\<dots> \<le> real_of_int m * 2 powi e" using m1 p0 by simp
  finally show ?thesis by (simp add: f)
qed

lemma rnd64_underflow:
  assumes "0 \<le> x" and "x < 2 powi (- 1075)"
  shows "rnd64 x = Fin 0"
proof (cases "x = 0")
  case True
  then show ?thesis by simp
next
  case False
  with assms(1) have pos: "0 < x" by simp
  have h: "(2::real) powi (- 1075) * 2 = 2 powi (- 1074)"
    using power_int_add_1[of "2::real" "- 1075"] by simp
  have small: "x < 2 powi (- 1074) - x" using assms(2) h by linarith
  have s1: "(2::real) powi (- 1074) \<le> 1"
    using power_int_increasing[of "- 1074" 0 "2::real"] by simp
  have "(1::real) \<le> maxfloat" using binary64_le_maxfloat[OF one_binary64] .
  with small s1 pos have r: "- maxfloat \<le> x" "x \<le> maxfloat" by linarith+
  have b0: "float_below x = 0"
  proof (rule antisym)
    show "0 \<le> float_below x" using below_props(3)[OF r(1) zero_binary64] assms(1) by simp
    show "float_below x \<le> 0"
    proof (rule ccontr)
      assume "\<not> float_below x \<le> 0"
      then have "2 powi (- 1074) \<le> float_below x"
        using binary64_pos_ge[OF below_props(1)[OF r(1)]] by simp
      with below_props(2)[OF r(1)] small pos show False by linarith
    qed
  qed
  have "0 < float_above x" using above_props(2)[OF r(2)] pos by linarith
  then have a: "2 powi (- 1074) \<le> float_above x"
    using binary64_pos_ge[OF above_props(1)[OF r(2)]] by simp
  have "nearest x = 0"
    unfolding nearest_def Let_def b0 using small a by auto
  moreover have "max (- maxfloat) (min maxfloat x) = x" using r by simp
  moreover have "\<not> 2 ^ 1024 - 2 ^ 970 \<le> x" using r(2) maxfloat_less by linarith
  moreover have "\<not> x \<le> - (2 ^ 1024 - 2 ^ 970)" using pos maxfloat_less r(2) by linarith
  ultimately show ?thesis by (simp add: rnd64_def)
qed

lemma exp_minus_le_two_power: "exp (- real n) \<le> 2 powi (- int n)"
proof -
  have "inverse (exp (real n)) \<le> inverse (2 ^ n)"
    using exp_ge_two_power[of n] by (intro le_imp_inverse_le) simp_all
  then show ?thesis by (simp add: exp_minus power_int_minus)
qed


lemma rnd64_int: "\<bar>m\<bar> \<le> 2 ^ 53 - 1 \<Longrightarrow> rnd64 (real_of_int m) = Fin (real_of_int m)"
  using rnd64_binary64[OF binary64_I[of m 0]] by simp

lemma rnd64_half_int:
  "\<bar>m\<bar> \<le> 2 ^ 53 - 1 \<Longrightarrow> rnd64 (real_of_int m / 2) = Fin (real_of_int m / 2)"
  using rnd64_binary64[OF binary64_I[of m "- 1"]] by (simp add: field_simps)

lemma rnd64_numeral [simp]:
  "numeral k \<le> (2 ^ 53 - 1 :: int) \<Longrightarrow> rnd64 (numeral k) = Fin (numeral k)"
  using rnd64_int[of "numeral k"] by simp

lemma rnd64_neg_numeral [simp]:
  "numeral k \<le> (2 ^ 53 - 1 :: int) \<Longrightarrow> rnd64 (- numeral k) = Fin (- numeral k)"
  using rnd64_int[of "- numeral k"] by simp

lemma rnd64_small [simp]:
  "rnd64 (- 1) = Fin (- 1)"
  "rnd64 (1 / 2) = Fin (1 / 2)" "rnd64 (- (1 / 2)) = Fin (- (1 / 2))"
  "rnd64 (- (4001 / 2)) = Fin (- (4001 / 2))"
  using rnd64_int[of "- 1"]
    rnd64_half_int[of 1] rnd64_half_int[of "- 1"] rnd64_half_int[of "- 4001"]
  by simp_all



section \<open>Runs in binary64 arithmetic\<close>

text \<open>
  Inputs on which every intermediate result is known exactly: \<open>exp 0 = 1\<close>, an
  exponential that underflows to \<open>0.0\<close>, and sums and products of small integers. On
  the draws \<open>1/2\<close> and \<open>-2000\<close> with \<open>S0 = 2\<close>, \<open>r = 0\<close> and \<open>sigma = T = 1\<close> the
  sampled prices are \<open>2\<close> and \<open>0\<close>; at \<open>sigma = 0\<close> every sampled price is \<open>S0\<close>.
\<close>

lemma rnd64_sqrt_2: "\<exists>t. rnd64 (sqrt 2) = Fin t \<and> 1 \<le> t"
proof -
  have "fle (rnd64 1) (rnd64 (sqrt 2))" by (intro rnd64_mono) simp
  moreover have "fle (rnd64 (sqrt 2)) (rnd64 2)"
  proof (intro rnd64_mono)
    have "sqrt 2 \<le> sqrt 4" by (intro real_sqrt_le_mono) simp
    then show "sqrt 2 \<le> 2" by simp
  qed
  ultimately show ?thesis by (cases "rnd64 (sqrt 2)") simp_all
qed

lemma exp_minus_4001_half_underflows: "rnd64 (exp (- (4001 / 2))) = Fin 0"
proof -
  have "exp (- (4001 / 2) :: real) \<le> exp (- 2000)" by simp
  also have "exp (- real 2000) \<le> 2 powi (- int 2000)" by (rule exp_minus_le_two_power)
  then have "exp (- 2000 :: real) \<le> 2 powi (- 2000)" by simp
  also have "\<dots> < 2 powi (- 1075)"
    by (intro power_int_strict_increasing) simp_all
  finally show ?thesis by (intro rnd64_underflow) simp_all
qed

lemma sampler_two_draws_binary64:
  "terminal_stockprice_fp float64 (\<lambda>i. if i = 0 then 1 / 2 else - 2000) 2 1 0 1 2 = Inr ([Fin 2, Fin 0], advance (\<lambda>i. if i = 0 then 1 / 2 else - 2000) 2)"
  by (simp add: terminal_stockprice_fp_def standard_normal_def Let_def gsub_def advance_def
      upt_rec exp_minus_4001_half_underflows)

lemma bs_call_mc_binary64:
  "bs_call_mc_fp float64 (\<lambda>p. Fin 2) (\<lambda>i. if i = 0 then 1 / 2 else - 2000) 2 0 1 0 1 2 (1/20) =
     Inr ((Fin 1, Fin 1, Fin (- 1), Fin 3), advance (\<lambda>i. if i = 0 then 1 / 2 else - 2000) 2)"
proof -
  from rnd64_sqrt_2 obtain t where t: "rnd64 (sqrt 2) = Fin t" "1 \<le> t" by blast
  then have t0: "t \<noteq> 0" by simp
  show ?thesis
    unfolding bs_call_mc_fp_def sampler_two_draws_binary64
    by (simp add: Let_def gsub_def np_mean_fp_def np_std_fp_def np_var_fp_def of_int_fl_def t t0)
qed

lemma bs_call_cv_binary64:
  "bs_call_cv_fp float64 (\<lambda>p. Fin 2) (\<lambda>i. if i = 0 then 1 / 2 else - 2000) 2 0 1 0 1 2 (1/20) =
     Inr ((Fin 2, Fin 0, Fin 2, Fin 2, Fin 1), advance (\<lambda>i. if i = 0 then 1 / 2 else - 2000) 2)"
proof -
  from rnd64_sqrt_2 obtain t where t: "rnd64 (sqrt 2) = Fin t" "1 \<le> t" by blast
  then have t0: "t \<noteq> 0" by simp
  show ?thesis
    unfolding bs_call_cv_fp_def sampler_two_draws_binary64
    by (simp add: Let_def gsub_def np_mean_fp_def np_std_fp_def np_var_fp_def of_int_fl_def
        np_cov01_fp_def np_cov_entry_fp_def t t0)
qed

lemma bs_call_av_binary64:
  "bs_call_av_fp float64 (\<lambda>p. Fin 2) (\<lambda>i. real i) 2 1 1 0 0 2 (1/20) =
     Inr ((Fin 1, Fin 0, Fin 1, Fin 1, Fin 0), advance (\<lambda>i. real i) 2)"
  unfolding bs_call_av_fp_def terminal_stockprice_av_fp_def
  by (simp add: Let_def gsub_def np_mean_fp_def np_std_fp_def np_var_fp_def of_int_fl_def
      np_cov01_fp_def np_cov_entry_fp_def standard_normal_def upt_rec advance_def)

lemma sampler_flat_binary64:
  "terminal_stockprice_fp float64 (\<lambda>i. real i) 1 1 0 0 2 =
     Inr ([Fin 1, Fin 1], advance (\<lambda>i. real i) 2)"
  by (simp add: terminal_stockprice_fp_def standard_normal_def Let_def gsub_def advance_def upt_rec)

lemma cv_bstar_binary64: "cv_bstar_fp float64 1 1 0 [Fin 1, Fin 1] = NaN"
  by (simp add: cv_bstar_fp_def Let_def gsub_def np_mean_fp_def np_var_fp_def of_int_fl_def
      np_cov01_fp_def np_cov_entry_fp_def)

lemma sweep_binary64:
  "sweep_fp float64 (\<lambda>i. if i = 0 then 1 / 2 else - 2000) 2 1 0 1 2 2 [Fin 0, Fin 5] =
     Inr (([sweep_body_fp float64 [Fin 2, Fin 0] 0 1 (Fin 0), NaN],
           [gsquare float64 (sweep_body_fp float64 [Fin 2, Fin 0] 0 1 (Fin 0)), NaN]),
          advance (\<lambda>i. if i = 0 then 1 / 2 else - 2000) 2)"
proof -
  from rnd64_sqrt_2 obtain t where t: "rnd64 (sqrt 2) = Fin t" "1 \<le> t" by blast
  then have t0: "t \<noteq> 0" by simp
  have b: "sweep_body_fp float64 [Fin 2, Fin 0] 0 1 (Fin 5) = NaN"
    by (simp add: sweep_body_fp_def np_corrcoef01_fp_def Let_def gsub_def np_mean_fp_def
        of_int_fl_def np_cov_entry_fp_def np_clip_def t t0)
  have len: "length [Fin 0, Fin 5] = 2" by simp
  show ?thesis
    unfolding sweep_fp_result[OF sampler_two_draws_binary64 len]
    by (simp add: upt_rec b)
qed

section \<open>The plain Monte Carlo estimator\<close>

text \<open>
  Claim C1. On at least two draws and a maturity \<open>T \<ge> 0\<close>, where \<open>z\<close> is the
  quantile that \<open>norm.ppf\<close> returns at \<open>1 - epsilon/2\<close>, \<open>bs_call_mc\<close> returns the
  mean of the discounted payoffs \<open>exp(-r T) max(S_i - K, 0)\<close> of the terminal prices
  \<open>S_i = S0 exp((r - sigma^2/2) T + sigma sqrt(T) x_i)\<close> as price, their unbiased
  sample standard deviation divided by \<open>sqrt(n)\<close> as standard error, and
  \<open>price - z stderr\<close> and \<open>price + z stderr\<close> as confidence bounds.
\<close>

theorem bs_call_mc_formula:
  assumes "2 \<le> n" and "0 \<le> T" and "ppf (Fin (1 - eps / 2)) = Fin z"
  shows "bs_call_mc ppf g S0 K T r sigma n eps =
    (let Y = map (discounted_payoff r T K) (sample_prices g S0 r sigma T (nat n));
         price = sample_mean Y;
         stderr = sample_stdev Y / sqrt (real_of_int n)
     in Inr ((Fin price, Fin stderr, Fin (price - z * stderr), Fin (price + z * stderr)),
             advance g (nat n)))"
  using assms by (rule bs_call_mc_Fin)

theorem bs_call_mc_formula_witness:
  "(2::int) \<le> 2 \<and> (0::real) \<le> 1 \<and> (\<lambda>p. Fin 2) (Fin (1 - (1/20) / 2)) = Fin 2 \<and>
   bs_call_mc (\<lambda>p. Fin 2) (\<lambda>i. if i = 0 then 1/2 else 1/2 + ln 2) 1 1 1 0 1 2 (1/20) =
     Inr ((Fin (1/2), Fin (1/2), Fin (- 1/2), Fin (3/2)),
          advance (\<lambda>i. if i = 0 then 1/2 else 1/2 + ln 2) 2)"
  using bs_call_mc_formula[of 2 1 "\<lambda>p. Fin 2" "1/20" 2
      "\<lambda>i. if i = 0 then 1/2 else 1/2 + ln 2" 1 1 0 1]
  by (simp add: sample_prices_def gbm_terminal_def upt_rec exp_add exp_minus
      discounted_payoff_def sample_mean_def sample_stdev_def sample_var_def real_sqrt_divide
      power2_eq_square Let_def)

section \<open>The control-variate estimator\<close>

text \<open>
  Claim C2. On at least two draws, a maturity \<open>T \<ge> 0\<close> and a control
  \<open>X_i = exp(-r T) S_i\<close> of non-zero sample variance, \<open>bs_call_cv\<close> computes
  \<open>b* = Cov(X, Y) / Var(X)\<close> from the unbiased sample covariance and variance of the
  same \<open>n\<close> observations, forms \<open>Z_i = Y_i - b* (X_i - S0)\<close>, and returns the mean of
  \<open>Z\<close>, its unbiased sample standard deviation divided by \<open>sqrt(n)\<close> and the bounds
  \<open>price \<plusminus> z stderr\<close>, as the plain estimator does from its payoffs, together with
  \<open>rho_squared = Cov(X, Y)^2 / (Var(X) Var(Y))\<close>; where \<open>Var(Y)\<close> is zero, the quotient
  is \<open>0 / 0\<close> and \<open>rho_squared\<close> is \<open>NaN\<close>.
\<close>

theorem bs_call_cv_formula:
  assumes "2 \<le> n" and "0 \<le> T" and "ppf (Fin (1 - eps / 2)) = Fin z"
    and "sample_var (map (\<lambda>s. exp (- r * T) * s) (sample_prices g S0 r sigma T (nat n))) \<noteq> 0"
  shows "bs_call_cv ppf g S0 K T r sigma n eps =
    (let S = sample_prices g S0 r sigma T (nat n);
         X = map (\<lambda>s. exp (- r * T) * s) S;
         Y = map (discounted_payoff r T K) S;
         bstar = sample_cov X Y / sample_var X;
         Z = map2 (\<lambda>y x. y - bstar * (x - S0)) Y X;
         price = sample_mean Z;
         stderr = sample_stdev Z / sqrt (real_of_int n);
         rho_squared = (if sample_var Y = 0 then NaN
                        else Fin ((sample_cov X Y)\<^sup>2 / (sample_var X * sample_var Y)))
     in Inr ((Fin price, Fin stderr, Fin (price - z * stderr), Fin (price + z * stderr),
              rho_squared), advance g (nat n)))"
  using assms by (rule bs_call_cv_Fin)

theorem bs_call_cv_formula_witness:
  "(2::int) \<le> 3 \<and> (0::real) \<le> 1 \<and> (\<lambda>p. Fin 2) (Fin (1 - (1/20) / 2)) = Fin 2 \<and>
   sample_var (map (\<lambda>s. exp (- 0 * 1) * s)
      (sample_prices (\<lambda>i. 1/2 + real i * ln 2) 1 0 1 1 (nat 3))) \<noteq> 0 \<and>
   bs_call_cv (\<lambda>p. Fin 2) (\<lambda>i. 1/2 + real i * ln 2) 1 2 1 0 1 3 (1/20) =
     Inr ((Fin (- 2/7), Fin (sqrt (1/7) / sqrt 3), Fin (- 2/7 - 2 * (sqrt (1/7) / sqrt 3)),
           Fin (- 2/7 + 2 * (sqrt (1/7) / sqrt 3)), Fin (25/28)),
          advance (\<lambda>i. 1/2 + real i * ln 2) 3)"
proof -
  have p: "sample_prices (\<lambda>i. 1/2 + real i * ln 2) 1 0 1 1 3 = [1, 2, 4]"
  proof -
    have "exp (2 * ln (2::real)) = 4"
      using exp_of_nat_mult[of 2 "ln (2::real)"] by simp
    then show ?thesis
      by (simp add: sample_prices_def gbm_terminal_def upt_rec exp_add exp_minus)
  qed
  have vx: "sample_var [1, 2, 4] = 7/3"
    by (simp add: sample_var_def sample_mean_def power2_eq_square)
  have vy: "sample_var [0, 0, 2] = 4/3"
    by (simp add: sample_var_def sample_mean_def power2_eq_square)
  have c: "sample_cov [1, 2, 4] [0, 0, 2] = 5/3"
    by (simp add: sample_cov_def sample_mean_def)
  have mz: "sample_mean [0, - (5/7), - (1/7)] = - (2/7)"
    by (simp add: sample_mean_def)
  have sz: "sample_stdev [0, - (5/7), - (1/7)] = sqrt (1/7)"
    by (simp add: sample_stdev_def sample_var_def sample_mean_def power2_eq_square)
  show ?thesis
    using bs_call_cv_formula[of 3 1 "\<lambda>p. Fin 2" "1/20" 2 0
      "\<lambda>i. 1/2 + real i * ln 2" 1 1 2]
    by (simp add: p discounted_payoff_def vx vy c mz sz Let_def power2_eq_square)
qed


section \<open>The antithetic estimator\<close>

text \<open>
  Claim C3. On \<open>half_n \<ge> 2\<close> draws \<open>x_i\<close> and a maturity \<open>T \<ge> 0\<close>,
  \<open>terminal_stockprice_av\<close> builds the terminal prices of \<open>x_i\<close> and of \<open>- x_i\<close> by
  the same lognormal formula, index by index, and their concatenation; \<open>bs_call_av\<close>
  takes the unbiased paired covariance \<open>thecov\<close> of the two sequences of discounted
  payoffs, concatenates them into one sample of size \<open>2 half_n\<close>, returns the mean of
  that sample, its unbiased sample standard deviation divided by \<open>sqrt(2 half_n)\<close> and
  the bounds \<open>price \<plusminus> z stderr\<close>, and the diagnostic \<open>thecov / (2 half_n)\<close>.
\<close>

theorem bs_call_av_formula:
  assumes "2 \<le> h" and "0 \<le> T" and "ppf (Fin (1 - eps / 2)) = Fin z"
  shows "(let S1 = sample_prices g S0 r sigma T (nat h);
              S2 = sample_prices (\<lambda>i. - g i) S0 r sigma T (nat h);
              Y1 = map (discounted_payoff r T K) S1;
              Y2 = map (discounted_payoff r T K) S2;
              thecov = sample_cov Y1 Y2;
              Y = Y1 @ Y2;
              price = sample_mean Y;
              stderr = sample_stdev Y / sqrt (real_of_int (2 * h))
          in terminal_stockprice_av g S0 T r sigma h =
               Inr ((map Fin S1, map Fin S2, map Fin (S1 @ S2)), advance g (nat h)) \<and>
             length Y = nat (2 * h) \<and>
             bs_call_av ppf g S0 K T r sigma h eps =
               Inr ((Fin price, Fin stderr, Fin (price - z * stderr), Fin (price + z * stderr),
                     Fin (thecov / real_of_int (2 * h))), advance g (nat h)))"
proof -
  let ?xs = "[0..<nat h]"
  let ?s1 = "\<lambda>i. gbm_terminal S0 r sigma T (g i)"
  let ?s2 = "\<lambda>i. gbm_terminal S0 r sigma T (- g i)"
  have len: "2 \<le> length ?xs" and h1: "1 \<le> h" and h0: "0 \<le> h"
    and n0: "real_of_int (2 * h) \<noteq> 0"
    using assms(1) by auto
  have sampler: "terminal_stockprice_av g S0 T r sigma h =
      Inr ((map Fin (map ?s1 ?xs), map Fin (map ?s2 ?xs), map Fin (map ?s1 ?xs @ map ?s2 ?xs)),
           advance g (nat h))"
    unfolding terminal_stockprice_av_Fin[OF h0 assms(2)] by (simp add: comp_def)
  have lenY: "length (map ?s1 ?xs @ map ?s2 ?xs) = nat (2 * h)" using assms(1) by auto
  show ?thesis
    unfolding bs_call_av_Fin[where ppf=ppf and z=z and eps=eps, OF h1 assms(2,3)] Let_def
      np_cov01_Fin[OF len]
    using sampler lenY n0 by (simp add: sample_prices_def comp_def)
qed

theorem bs_call_av_formula_witness:
  "(2::int) \<le> 2 \<and> (0::real) \<le> 1 \<and> (\<lambda>p. Fin 2) (Fin (1 - (1/20) / 2)) = Fin 2 \<and>
   terminal_stockprice_av (\<lambda>i. real i * ln 2) (exp (1/2)) 1 0 1 2 =
     Inr (([Fin 1, Fin 2], [Fin 1, Fin (1/2)], [Fin 1, Fin 2, Fin 1, Fin (1/2)]),
          advance (\<lambda>i. real i * ln 2) 2) \<and>
   bs_call_av (\<lambda>p. Fin 2) (\<lambda>i. real i * ln 2) (exp (1/2)) 1 1 0 1 2 (1/20) =
     Inr ((Fin (1/4), Fin (1/4), Fin (- 1/4), Fin (3/4), Fin 0),
          advance (\<lambda>i. real i * ln 2) 2)"
proof -
  have gt: "gbm_terminal (exp (1/2)) 0 1 1 x = exp x" for x
    by (simp add: gbm_terminal_def mult_exp_exp)
  have p1: "sample_prices (\<lambda>i. real i * ln 2) (exp (1/2)) 0 1 1 2 = [1, 2]"
    by (simp add: sample_prices_def gt upt_rec)
  have p2: "sample_prices (\<lambda>i. - (real i * ln 2)) (exp (1/2)) 0 1 1 2 = [1, 1/2]"
    by (simp add: sample_prices_def gt upt_rec exp_minus inverse_eq_divide)
  have m: "sample_mean [0, 1, 0, 0] = 1/4"
    by (simp add: sample_mean_def)
  have sd: "sample_stdev [0, 1, 0, 0] = 1/2"
    by (simp add: sample_stdev_def sample_var_def sample_mean_def power2_eq_square real_sqrt_divide)
  have c: "sample_cov [0, 1] [0, 0] = 0"
    by (simp add: sample_cov_def sample_mean_def)
  show ?thesis
    using bs_call_av_formula[of 2 1 "\<lambda>p. Fin 2" "1/20" 2 "\<lambda>i. real i * ln 2" "exp (1/2)" 0 1 1]
    by (simp add: p1 p2 discounted_payoff_def m sd c Let_def)
qed


section \<open>The sign of the sampled prices\<close>




section \<open>Non-positive draw counts\<close>




section \<open>Fewer than two samples\<close>




section \<open>A control of variance zero\<close>

text \<open>
  Claim C5, amended. The control-variate estimator checks nothing and raises no error
  of its own: for every draw count \<open>n \<ge> 0\<close> (and a power \<open>sigma ** 2\<close> that does not
  overflow) it returns a result and has consumed \<open>n\<close> draws. Whenever the coefficient
  \<open>b*\<close> that it computes is \<open>NaN\<close>, as it is where the sample covariance and the
  sample variance of the control are both computed as zero (at \<open>sigma = 0\<close> with two
  draws, for instance), and \<open>n \<ge> 1\<close>, the price, the standard error, both confidence
  bounds and \<open>rho_squared\<close> are all \<open>NaN\<close>. A control whose variance is zero in exact
  arithmetic need not give a \<open>NaN\<close>: the rounded mean of equal floats may differ from
  them. The statement holds in every arithmetic that satisfies \<open>ieee\<close>.
\<close>

theorem bs_call_cv_returns:
  assumes "ieee A" and "0 \<le> n" and "square_py A sigma = Inr q"
  shows "\<exists>mystockprice res.
           terminal_stockprice_fp A g S0 T r sigma n = Inr (mystockprice, advance g (nat n)) \<and>
           bs_call_cv_fp A ppf g S0 K T r sigma n eps = Inr (res, advance g (nat n)) \<and>
           (1 \<le> n \<and> cv_bstar_fp A K T r mystockprice = NaN \<longrightarrow>
              res = (NaN, NaN, NaN, NaN, NaN))"
proof -
  from terminal_stockprice_fp_eq[OF assms(2,3), of g S0 T r] obtain mys where
    ts: "terminal_stockprice_fp A g S0 T r sigma n = Inr (mys, advance g (nat n))"
    and len: "length mys = nat n"
    by simp
  let ?d = "gexp A (gmul A (fneg (Fin r)) (Fin T))"
  let ?dp = "map (gmul A ?d) (map (\<lambda>s. fmaximum (gsub A s (Fin K)) (Fin 0)) mys)"
  let ?xs = "map (gmul A ?d) mys"
  obtain res where res: "bs_call_cv_fp A ppf g S0 K T r sigma n eps = Inr (res, advance g (nat n))"
    unfolding bs_call_cv_fp_def ts Let_def by simp
  have "res = (NaN, NaN, NaN, NaN, NaN)" if n1: "1 \<le> n" and b: "cv_bstar_fp A K T r mys = NaN"
  proof -
    have bstar: "gdiv A (np_cov01_fp A 1 ?xs ?dp) (np_var_fp A 1 ?xs) = NaN"
      using b by (simp add: cv_bstar_fp_def Let_def)
    have ne: "mys \<noteq> []" using len n1 by auto
    have zz: "map2 (gsub A) ?dp (map (gmul A NaN) (map (\<lambda>x. gsub A x (Fin S0)) ?xs))
              = map (\<lambda>s. NaN) mys"
      by (simp add: zip_map_map zip_same_conv_map comp_def)
    have nan: "NaN \<in> set (map (\<lambda>s. NaN) mys)" using ne by (cases mys) simp_all
    have "bs_call_cv_fp A ppf g S0 K T r sigma n eps =
            Inr ((NaN, NaN, NaN, NaN, NaN), advance g (nat n))"
      unfolding bs_call_cv_fp_def ts Let_def sum.case prod.case bstar zz
        np_mean_fp_NaN[OF assms(1) nan] np_std_fp_NaN[OF assms(1) nan]
        rho_squared_NaN[OF assms(1) bstar]
      by simp
    with res show ?thesis by simp
  qed
  with ts res show ?thesis by blast
qed

theorem bs_call_cv_returns_witness:
  "ieee exact \<and> (0::int) \<le> 2 \<and> square_py exact 0 = Inr (Fin 0) \<and> (1::int) \<le> 2 \<and>
   (\<exists>mystockprice.
      terminal_stockprice_fp exact (\<lambda>i. real i) 50 (1/4) (1/20) 0 2 =
        Inr (mystockprice, advance (\<lambda>i. real i) 2) \<and>
      cv_bstar_fp exact 50 (1/4) (1/20) mystockprice = NaN) \<and>
   bs_call_cv_fp exact (\<lambda>p. Fin 2) (\<lambda>i. real i) 50 50 (1/4) (1/20) 0 2 (1/20) =
     Inr ((NaN, NaN, NaN, NaN, NaN), advance (\<lambda>i. real i) 2) \<and>
   ieee float64 \<and> square_py float64 0 = Inr (Fin 0) \<and>
   terminal_stockprice_fp float64 (\<lambda>i. real i) 1 1 0 0 2 =
     Inr ([Fin 1, Fin 1], advance (\<lambda>i. real i) 2) \<and>
   cv_bstar_fp float64 1 1 0 [Fin 1, Fin 1] = NaN \<and>
   bs_call_cv_fp float64 (\<lambda>p. Fin 2) (\<lambda>i. real i) 1 1 1 0 0 2 (1/20) =
     Inr ((NaN, NaN, NaN, NaN, NaN), advance (\<lambda>i. real i) 2)"
proof -
  have exact_part:
    "ieee exact \<and> (0::int) \<le> 2 \<and> square_py exact 0 = Inr (Fin 0) \<and> (1::int) \<le> 2 \<and>
   (\<exists>mystockprice.
      terminal_stockprice_fp exact (\<lambda>i. real i) 50 (1/4) (1/20) 0 2 =
        Inr (mystockprice, advance (\<lambda>i. real i) 2) \<and>
      cv_bstar_fp exact 50 (1/4) (1/20) mystockprice = NaN) \<and>
   bs_call_cv_fp exact (\<lambda>p. Fin 2) (\<lambda>i. real i) 50 50 (1/4) (1/20) 0 2 (1/20) =
     Inr ((NaN, NaN, NaN, NaN, NaN), advance (\<lambda>i. real i) 2)"
  proof -
    let ?g = "\<lambda>i. real i"
    let ?mys = "map (\<lambda>i. Fin (gbm_terminal 50 (1/20) 0 (1/4) (?g i))) [0..<nat 2]"
    have h: "ieee exact" "(0::int) \<le> 2" "square_py exact 0 = Inr (Fin 0)"
      by (simp_all add: ieee_exact)
    have T: "(0::real) \<le> 1/4" and n1: "(1::int) \<le> 2" by simp_all
    have ts: "terminal_stockprice_fp exact ?g 50 (1/4) (1/20) 0 2 = Inr (?mys, advance ?g (nat 2))"
      unfolding terminal_stockprice_fp_exact by (rule terminal_stockprice_Fin[OF h(2) T])
    have len: "2 \<le> length [0..<nat 2]" by simp
    have "sample_var (map (\<lambda>s. exp (- (1/20) * (1/4)) * s)
            (sample_prices ?g 50 (1/20) 0 (1/4) (nat 2))) = 0"
      by (rule sigma_zero_control)
    then have "sample_var (map (\<lambda>i. exp (- (1/20) * (1/4)) * gbm_terminal 50 (1/20) 0 (1/4) (?g i))
            [0..<nat 2]) = 0"
      by (simp add: sample_prices_def comp_def)
    from cv_bstar_fp_zero_var[OF len this]
    have b: "cv_bstar_fp exact 50 (1/4) (1/20) ?mys = NaN" .
    from bs_call_cv_returns[OF h, of ?g 50 "1/4" "1/20" "\<lambda>p. Fin 2" 50 "1/20"]
    obtain mys res where
      1: "terminal_stockprice_fp exact ?g 50 (1/4) (1/20) 0 2 = Inr (mys, advance ?g (nat 2))"
      and 2: "bs_call_cv_fp exact (\<lambda>p. Fin 2) ?g 50 50 (1/4) (1/20) 0 2 (1/20) =
                Inr (res, advance ?g (nat 2))"
      and 3: "1 \<le> (2::int) \<and> cv_bstar_fp exact 50 (1/4) (1/20) mys = NaN \<longrightarrow>
                res = (NaN, NaN, NaN, NaN, NaN)"
      by blast
    from 1 ts have "mys = ?mys" by simp
    with 3 b n1 have "res = (NaN, NaN, NaN, NaN, NaN)" by blast
    with 2 ts b h n1 show ?thesis by auto
  qed
  have binary64_part:
    "ieee float64 \<and> square_py float64 0 = Inr (Fin 0) \<and>
   terminal_stockprice_fp float64 (\<lambda>i. real i) 1 1 0 0 2 =
     Inr ([Fin 1, Fin 1], advance (\<lambda>i. real i) 2) \<and>
   cv_bstar_fp float64 1 1 0 [Fin 1, Fin 1] = NaN \<and>
   bs_call_cv_fp float64 (\<lambda>p. Fin 2) (\<lambda>i. real i) 1 1 1 0 0 2 (1/20) =
     Inr ((NaN, NaN, NaN, NaN, NaN), advance (\<lambda>i. real i) 2)"
  proof -
    let ?g = "\<lambda>i. real i"
    have h: "ieee float64" "(0::int) \<le> 2" "square_py float64 0 = Inr (Fin 0)"
      by (simp_all add: ieee_float64)
    have n1: "(1::int) \<le> 2" by simp
    from bs_call_cv_returns[OF h, of ?g 1 1 0 "\<lambda>p. Fin 2" 1 "1/20"]
    obtain mys res where
      1: "terminal_stockprice_fp float64 ?g 1 1 0 0 2 = Inr (mys, advance ?g (nat 2))"
      and 2: "bs_call_cv_fp float64 (\<lambda>p. Fin 2) ?g 1 1 1 0 0 2 (1/20) =
                Inr (res, advance ?g (nat 2))"
      and 3: "1 \<le> (2::int) \<and> cv_bstar_fp float64 1 1 0 mys = NaN \<longrightarrow>
                res = (NaN, NaN, NaN, NaN, NaN)"
      by blast
    from 1 sampler_flat_binary64 have "mys = [Fin 1, Fin 1]" by simp
    with 3 cv_bstar_binary64 n1 have "res = (NaN, NaN, NaN, NaN, NaN)" by blast
    with 2 sampler_flat_binary64 cv_bstar_binary64 h show ?thesis by simp
  qed
  from exact_part binary64_part show ?thesis by blast
qed

text \<open>As stated the claim fails at \<open>sigma = 0\<close>: a result is returned.\<close>

theorem bs_call_cv_zero_volatility:
  "bs_call_cv (\<lambda>p. Fin 2) (\<lambda>i. real i) 50 50 (1/4) (1/20) 0 2 (1/20) =
     Inr ((NaN, NaN, NaN, NaN, NaN), advance (\<lambda>i. real i) 2)"
proof -
  have v: "sample_var (map (\<lambda>s. exp (- (1/20) * (1/4)) * s)
             (sample_prices (\<lambda>i. real i) 50 (1/20) 0 (1/4) (nat 2))) = 0"
    by (rule sigma_zero_control)
  have h: "(2::int) \<le> 2" "(0::real) \<le> 1/4" by simp_all
  from bs_call_cv_zero_var[OF h v] show ?thesis by simp
qed



section \<open>The invariant of the estimation result\<close>

text \<open>
  Claim C4, amended. Let the value \<open>z\<close> that \<open>norm.ppf\<close> returns at the computed level
  \<open>1 - epsilon / 2\<close> be finite and positive, the draw count not negative and the power
  \<open>sigma ** 2\<close> not overflowing. Then the plain, the control-variate and the antithetic
  estimator each return a result, and every such result whose price is finite and
  whose standard error is not \<open>NaN\<close> satisfies \<open>ci_low \<le> price \<le> ci_high\<close> and
  \<open>stderr \<ge> 0\<close>, and its bounds are the price minus and plus the same half-width
  \<open>z * stderr \<ge> 0\<close>, each rounded once. The distances \<open>price - ci_low\<close> and
  \<open>ci_high - price\<close> therefore agree up to rounding only; that they are equal is not
  claimed. The statement holds in every arithmetic that satisfies \<open>ieee\<close>.
\<close>

theorem ci_invariant_rounded:
  assumes "ieee A" and "ppf (gsub A (Fin 1) (gmul A (Fin eps) (Fin 0.5))) = Fin z" and "0 < z"
    and "0 \<le> n" and "0 \<le> h" and "square_py A sigma = Inr q"
  shows "(\<exists>price se lo hi.
            bs_call_mc_fp A ppf g S0 K T r sigma n eps =
              Inr ((price, se, lo, hi), advance g (nat n)) \<and>
            ((\<exists>p. price = Fin p) \<and> se \<noteq> NaN \<longrightarrow> ci_rounded A z price se lo hi)) \<and>
         (\<exists>price se lo hi d.
            bs_call_cv_fp A ppf g S0 K T r sigma n eps =
              Inr ((price, se, lo, hi, d), advance g (nat n)) \<and>
            ((\<exists>p. price = Fin p) \<and> se \<noteq> NaN \<longrightarrow> ci_rounded A z price se lo hi)) \<and>
         (\<exists>price se lo hi d.
            bs_call_av_fp A ppf g S0 K T r sigma h eps =
              Inr ((price, se, lo, hi, d), advance g (nat h)) \<and>
            ((\<exists>p. price = Fin p) \<and> se \<noteq> NaN \<longrightarrow> ci_rounded A z price se lo hi))"
proof (intro conjI)
  from bs_call_mc_fp_returns[OF assms(4,6), of ppf g S0 K T r eps]
  obtain price se lo hi where
    r: "bs_call_mc_fp A ppf g S0 K T r sigma n eps = Inr ((price, se, lo, hi), advance g (nat n))"
    by (metis prod_cases4)
  have "ci_rounded A z price se lo hi" if "\<exists>p. price = Fin p" "se \<noteq> NaN"
    using that bs_call_mc_fp_ci[where ppf = ppf and z = z and eps = eps, OF assms(1,2,3)] r
    by blast
  with r show "\<exists>price se lo hi.
      bs_call_mc_fp A ppf g S0 K T r sigma n eps = Inr ((price, se, lo, hi), advance g (nat n)) \<and>
      ((\<exists>p. price = Fin p) \<and> se \<noteq> NaN \<longrightarrow> ci_rounded A z price se lo hi)"
    by blast
next
  from bs_call_cv_fp_returns[OF assms(4,6), of ppf g S0 K T r eps]
  obtain price se lo hi d where
    r: "bs_call_cv_fp A ppf g S0 K T r sigma n eps =
          Inr ((price, se, lo, hi, d), advance g (nat n))"
    by (metis prod_cases5)
  have "ci_rounded A z price se lo hi" if "\<exists>p. price = Fin p" "se \<noteq> NaN"
    using that bs_call_cv_fp_ci[where ppf = ppf and z = z and eps = eps, OF assms(1,2,3)] r
    by blast
  with r show "\<exists>price se lo hi d.
      bs_call_cv_fp A ppf g S0 K T r sigma n eps =
        Inr ((price, se, lo, hi, d), advance g (nat n)) \<and>
      ((\<exists>p. price = Fin p) \<and> se \<noteq> NaN \<longrightarrow> ci_rounded A z price se lo hi)"
    by blast
next
  from bs_call_av_fp_returns[OF assms(5,6), of ppf g S0 K T r eps]
  obtain price se lo hi d where
    r: "bs_call_av_fp A ppf g S0 K T r sigma h eps =
          Inr ((price, se, lo, hi, d), advance g (nat h))"
    by (metis prod_cases5)
  have "ci_rounded A z price se lo hi" if "\<exists>p. price = Fin p" "se \<noteq> NaN"
    using that bs_call_av_fp_ci[where ppf = ppf and z = z and eps = eps, OF assms(1,2,3)] r
    by blast
  with r show "\<exists>price se lo hi d.
      bs_call_av_fp A ppf g S0 K T r sigma h eps =
        Inr ((price, se, lo, hi, d), advance g (nat h)) \<and>
      ((\<exists>p. price = Fin p) \<and> se \<noteq> NaN \<longrightarrow> ci_rounded A z price se lo hi)"
    by blast
qed

theorem ci_invariant_rounded_witness:
  "ieee exact \<and>
   (\<lambda>p. Fin 2) (gsub exact (Fin 1) (gmul exact (Fin (1/20)) (Fin 0.5))) = Fin 2 \<and> (0::real) < 2 \<and>
   (0::int) \<le> 3 \<and> (0::int) \<le> 2 \<and> square_py exact 1 = Inr (Fin 1) \<and>
   bs_call_mc_fp exact (\<lambda>p. Fin 2) (\<lambda>i. 1/2 + real i * ln 2) 1 2 1 0 1 3 (1/20) =
     Inr ((Fin (2/3), Fin (2/3), Fin (- 2/3), Fin 2), advance (\<lambda>i. 1/2 + real i * ln 2) 3) \<and>
   ci_rounded exact 2 (Fin (2/3)) (Fin (2/3)) (Fin (- 2/3)) (Fin 2) \<and>
   bs_call_cv_fp exact (\<lambda>p. Fin 2) (\<lambda>i. 1/2 + real i * ln 2) 1 2 1 0 1 3 (1/20) =
     Inr ((Fin (- 2/7), Fin (sqrt (1/7) / sqrt 3), Fin (- 2/7 - 2 * (sqrt (1/7) / sqrt 3)),
           Fin (- 2/7 + 2 * (sqrt (1/7) / sqrt 3)), Fin (25/28)),
          advance (\<lambda>i. 1/2 + real i * ln 2) 3) \<and>
   ci_rounded exact 2 (Fin (- 2/7)) (Fin (sqrt (1/7) / sqrt 3))
     (Fin (- 2/7 - 2 * (sqrt (1/7) / sqrt 3))) (Fin (- 2/7 + 2 * (sqrt (1/7) / sqrt 3))) \<and>
   bs_call_av_fp exact (\<lambda>p. Fin 2) (\<lambda>i. real i * ln 2) (exp (1/2)) 1 1 0 1 2 (1/20) =
     Inr ((Fin (1/4), Fin (1/4), Fin (- 1/4), Fin (3/4), Fin 0), advance (\<lambda>i. real i * ln 2) 2) \<and>
   ci_rounded exact 2 (Fin (1/4)) (Fin (1/4)) (Fin (- 1/4)) (Fin (3/4)) \<and>
   ieee float64 \<and> (0::int) \<le> 2 \<and>
   square_py float64 1 = Inr (Fin 1) \<and> square_py float64 0 = Inr (Fin 0) \<and>
   bs_call_mc_fp float64 (\<lambda>p. Fin 2) (\<lambda>i. if i = 0 then 1 / 2 else - 2000) 2 0 1 0 1 2 (1/20) =
     Inr ((Fin 1, Fin 1, Fin (- 1), Fin 3), advance (\<lambda>i. if i = 0 then 1 / 2 else - 2000) 2) \<and>
   ci_rounded float64 2 (Fin 1) (Fin 1) (Fin (- 1)) (Fin 3) \<and>
   bs_call_cv_fp float64 (\<lambda>p. Fin 2) (\<lambda>i. if i = 0 then 1 / 2 else - 2000) 2 0 1 0 1 2 (1/20) =
     Inr ((Fin 2, Fin 0, Fin 2, Fin 2, Fin 1), advance (\<lambda>i. if i = 0 then 1 / 2 else - 2000) 2) \<and>
   ci_rounded float64 2 (Fin 2) (Fin 0) (Fin 2) (Fin 2) \<and>
   bs_call_av_fp float64 (\<lambda>p. Fin 2) (\<lambda>i. real i) 2 1 1 0 0 2 (1/20) =
     Inr ((Fin 1, Fin 0, Fin 1, Fin 1, Fin 0), advance (\<lambda>i. real i) 2) \<and>
   ci_rounded float64 2 (Fin 1) (Fin 0) (Fin 1) (Fin 1)"
proof -
  have exact_part:
    "ieee exact \<and>
   (\<lambda>p. Fin 2) (gsub exact (Fin 1) (gmul exact (Fin (1/20)) (Fin 0.5))) = Fin 2 \<and> (0::real) < 2 \<and>
   (0::int) \<le> 3 \<and> (0::int) \<le> 2 \<and> square_py exact 1 = Inr (Fin 1) \<and>
   bs_call_mc_fp exact (\<lambda>p. Fin 2) (\<lambda>i. 1/2 + real i * ln 2) 1 2 1 0 1 3 (1/20) =
     Inr ((Fin (2/3), Fin (2/3), Fin (- 2/3), Fin 2), advance (\<lambda>i. 1/2 + real i * ln 2) 3) \<and>
   ci_rounded exact 2 (Fin (2/3)) (Fin (2/3)) (Fin (- 2/3)) (Fin 2) \<and>
   bs_call_cv_fp exact (\<lambda>p. Fin 2) (\<lambda>i. 1/2 + real i * ln 2) 1 2 1 0 1 3 (1/20) =
     Inr ((Fin (- 2/7), Fin (sqrt (1/7) / sqrt 3), Fin (- 2/7 - 2 * (sqrt (1/7) / sqrt 3)),
           Fin (- 2/7 + 2 * (sqrt (1/7) / sqrt 3)), Fin (25/28)),
          advance (\<lambda>i. 1/2 + real i * ln 2) 3) \<and>
   ci_rounded exact 2 (Fin (- 2/7)) (Fin (sqrt (1/7) / sqrt 3))
     (Fin (- 2/7 - 2 * (sqrt (1/7) / sqrt 3))) (Fin (- 2/7 + 2 * (sqrt (1/7) / sqrt 3))) \<and>
   bs_call_av_fp exact (\<lambda>p. Fin 2) (\<lambda>i. real i * ln 2) (exp (1/2)) 1 1 0 1 2 (1/20) =
     Inr ((Fin (1/4), Fin (1/4), Fin (- 1/4), Fin (3/4), Fin 0), advance (\<lambda>i. real i * ln 2) 2) \<and>
   ci_rounded exact 2 (Fin (1/4)) (Fin (1/4)) (Fin (- 1/4)) (Fin (3/4))"
  proof -
    let ?g = "\<lambda>i. 1/2 + real i * ln 2" and ?ppf = "\<lambda>p::fl. Fin 2"
    have hz: "?ppf (gsub exact (Fin 1) (gmul exact (Fin (1/20)) (Fin 0.5))) = Fin 2" "(0::real) < 2"
      by simp_all
    have n3: "(2::int) \<le> 3" and T1: "(0::real) \<le> 1" by simp_all
    have pz: "?ppf (Fin (1 - (1/20) / 2)) = Fin 2" by simp
    have vx: "sample_var [1, 2, 4] = 7/3"
      by (simp add: sample_var_def sample_mean_def power2_eq_square)
    have vy: "sample_var [0, 0, 2] = 4/3"
      by (simp add: sample_var_def sample_mean_def power2_eq_square)
    have c: "sample_cov [1, 2, 4] [0, 0, 2] = 5/3"
      by (simp add: sample_cov_def sample_mean_def)
    have my: "sample_mean [0, 0, 2] = 2/3"
      by (simp add: sample_mean_def)
    have sy: "sample_stdev [0, 0, 2] = 2 / sqrt 3"
      by (simp add: sample_stdev_def vy real_sqrt_divide)
    have mz: "sample_mean [0, - (5/7), - (1/7)] = - (2/7)"
      by (simp add: sample_mean_def)
    have sz: "sample_stdev [0, - (5/7), - (1/7)] = sqrt (1/7)"
      by (simp add: sample_stdev_def sample_var_def sample_mean_def power2_eq_square)
    have mc: "bs_call_mc_fp exact ?ppf ?g 1 2 1 0 1 3 (1/20) =
       Inr ((Fin (2/3), Fin (2/3), Fin (- 2/3), Fin 2), advance ?g 3)"
      unfolding bs_call_mc_fp_exact bs_call_mc_Fin[where ppf = ?ppf and z = 2, OF n3 T1 pz]
      by (simp add: prices_124 discounted_payoff_def my sy Let_def)
    have v: "sample_var (map (\<lambda>s. exp (- 0 * 1) * s) (sample_prices ?g 1 0 1 1 (nat 3))) \<noteq> 0"
      by (simp add: prices_124 vx)
    have cv: "bs_call_cv_fp exact ?ppf ?g 1 2 1 0 1 3 (1/20) =
       Inr ((Fin (- 2/7), Fin (sqrt (1/7) / sqrt 3), Fin (- 2/7 - 2 * (sqrt (1/7) / sqrt 3)),
             Fin (- 2/7 + 2 * (sqrt (1/7) / sqrt 3)), Fin (25/28)), advance ?g 3)"
      unfolding bs_call_cv_fp_exact bs_call_cv_Fin[where ppf = ?ppf and z = 2, OF n3 T1 pz v]
      by (simp add: prices_124 discounted_payoff_def vx vy c mz sz Let_def power2_eq_square)
    let ?h = "\<lambda>i. real i * ln 2"
    have gt: "gbm_terminal (exp (1/2)) 0 1 1 x = exp x" for x
      by (simp add: gbm_terminal_def mult_exp_exp)
    have m: "sample_mean [0, 1, 0, 0] = 1/4"
      by (simp add: sample_mean_def)
    have sd: "sample_stdev [0, 1, 0, 0] = 1/2"
      by (simp add: sample_stdev_def sample_var_def sample_mean_def power2_eq_square real_sqrt_divide)
    have c0: "np_cov01 1 [Fin 0, Fin 1] [Fin 0, Fin 0] = Fin 0"
      by (simp add: np_cov01_def np_cov_entry_def np_mean_def np_dot_def fsub_def Let_def)
    have h2: "(1::int) \<le> 2" by simp
    have av: "bs_call_av_fp exact ?ppf ?h (exp (1/2)) 1 1 0 1 2 (1/20) =
       Inr ((Fin (1/4), Fin (1/4), Fin (- 1/4), Fin (3/4), Fin 0), advance ?h 2)"
      unfolding bs_call_av_fp_exact bs_call_av_Fin[where ppf = ?ppf and z = 2, OF h2 T1 pz]
      by (simp add: gt upt_rec discounted_payoff_def exp_minus inverse_eq_divide m sd c0 Let_def)
    have hn: "(0::int) \<le> 3" "(0::int) \<le> 2" "square_py exact 1 = Inr (Fin 1)" by simp_all
    have fin: "\<exists>p. Fin x = Fin p" for x :: real by blast
    have num: "Fin x \<noteq> NaN" for x :: real by simp
    note inv = ci_invariant_rounded[where A = exact and ppf = ?ppf and eps = "1/20" and z = 2,
        OF ieee_exact hz hn]
    from inv[of ?g 1 2 1 0] obtain price se lo hi where
      "bs_call_mc_fp exact ?ppf ?g 1 2 1 0 1 3 (1/20) = Inr ((price, se, lo, hi), advance ?g (nat 3))"
      and i: "(\<exists>p. price = Fin p) \<and> se \<noteq> NaN \<longrightarrow> ci_rounded exact 2 price se lo hi"
      by blast
    with mc have "price = Fin (2/3)" "se = Fin (2/3)" "lo = Fin (- 2/3)" "hi = Fin 2"
      by simp_all
    with i fin num have 1: "ci_rounded exact 2 (Fin (2/3)) (Fin (2/3)) (Fin (- 2/3)) (Fin 2)"
      by blast
    from inv[of ?g 1 2 1 0] obtain price se lo hi d where
      "bs_call_cv_fp exact ?ppf ?g 1 2 1 0 1 3 (1/20) =
         Inr ((price, se, lo, hi, d), advance ?g (nat 3))"
      and i: "(\<exists>p. price = Fin p) \<and> se \<noteq> NaN \<longrightarrow> ci_rounded exact 2 price se lo hi"
      by blast
    with cv have "price = Fin (- 2/7)" "se = Fin (sqrt (1/7) / sqrt 3)"
      "lo = Fin (- 2/7 - 2 * (sqrt (1/7) / sqrt 3))" "hi = Fin (- 2/7 + 2 * (sqrt (1/7) / sqrt 3))"
      by simp_all
    with i fin num have 2: "ci_rounded exact 2 (Fin (- 2/7)) (Fin (sqrt (1/7) / sqrt 3))
       (Fin (- 2/7 - 2 * (sqrt (1/7) / sqrt 3))) (Fin (- 2/7 + 2 * (sqrt (1/7) / sqrt 3)))"
      by blast
    from inv[of ?h "exp (1/2)" 1 1 0] obtain price se lo hi d where
      "bs_call_av_fp exact ?ppf ?h (exp (1/2)) 1 1 0 1 2 (1/20) =
         Inr ((price, se, lo, hi, d), advance ?h (nat 2))"
      and i: "(\<exists>p. price = Fin p) \<and> se \<noteq> NaN \<longrightarrow> ci_rounded exact 2 price se lo hi"
      by blast
    with av have "price = Fin (1/4)" "se = Fin (1/4)" "lo = Fin (- 1/4)" "hi = Fin (3/4)"
      by simp_all
    with i fin num have 3: "ci_rounded exact 2 (Fin (1/4)) (Fin (1/4)) (Fin (- 1/4)) (Fin (3/4))"
      by blast
    from ieee_exact hz hn mc cv av 1 2 3 show ?thesis by blast
  qed
  have binary64_part:
    "ieee float64 \<and> (0::int) \<le> 2 \<and>
   square_py float64 1 = Inr (Fin 1) \<and> square_py float64 0 = Inr (Fin 0) \<and>
   bs_call_mc_fp float64 (\<lambda>p. Fin 2) (\<lambda>i. if i = 0 then 1 / 2 else - 2000) 2 0 1 0 1 2 (1/20) =
     Inr ((Fin 1, Fin 1, Fin (- 1), Fin 3), advance (\<lambda>i. if i = 0 then 1 / 2 else - 2000) 2) \<and>
   ci_rounded float64 2 (Fin 1) (Fin 1) (Fin (- 1)) (Fin 3) \<and>
   bs_call_cv_fp float64 (\<lambda>p. Fin 2) (\<lambda>i. if i = 0 then 1 / 2 else - 2000) 2 0 1 0 1 2 (1/20) =
     Inr ((Fin 2, Fin 0, Fin 2, Fin 2, Fin 1), advance (\<lambda>i. if i = 0 then 1 / 2 else - 2000) 2) \<and>
   ci_rounded float64 2 (Fin 2) (Fin 0) (Fin 2) (Fin 2) \<and>
   bs_call_av_fp float64 (\<lambda>p. Fin 2) (\<lambda>i. real i) 2 1 1 0 0 2 (1/20) =
     Inr ((Fin 1, Fin 0, Fin 1, Fin 1, Fin 0), advance (\<lambda>i. real i) 2) \<and>
   ci_rounded float64 2 (Fin 1) (Fin 0) (Fin 1) (Fin 1)"
  proof -
    let ?g = "\<lambda>i. if i = 0 then 1 / 2 else - (2000::real)" and ?ppf = "\<lambda>p::fl. Fin 2"
    let ?h = "\<lambda>i. real i"
    note mc = bs_call_mc_binary64 and cv = bs_call_cv_binary64 and av = bs_call_av_binary64
    have hz: "?ppf (gsub float64 (Fin 1) (gmul float64 (Fin (1/20)) (Fin 0.5))) = Fin 2"
      "(0::real) < 2" by simp_all
    have hn: "(0::int) \<le> 2" by simp
    have s1: "square_py float64 1 = Inr (Fin 1)" and s0: "square_py float64 0 = Inr (Fin 0)"
      by simp_all
    have fin: "\<exists>p. Fin x = Fin p" for x :: real by blast
    have num: "Fin x \<noteq> NaN" for x :: real by simp
    note inv1 = ci_invariant_rounded[where A = float64 and ppf = ?ppf and eps = "1/20" and z = 2,
        OF ieee_float64 hz hn hn s1, of ?g 2 0 1 0]
    note inv0 = ci_invariant_rounded[where A = float64 and ppf = ?ppf and eps = "1/20" and z = 2,
        OF ieee_float64 hz hn hn s0, of ?h 2 1 1 0]
    from inv1 obtain price se lo hi where
      "bs_call_mc_fp float64 ?ppf ?g 2 0 1 0 1 2 (1/20) =
         Inr ((price, se, lo, hi), advance ?g (nat 2))"
      and i: "(\<exists>p. price = Fin p) \<and> se \<noteq> NaN \<longrightarrow> ci_rounded float64 2 price se lo hi"
      by blast
    with mc have "price = Fin 1" "se = Fin 1" "lo = Fin (- 1)" "hi = Fin 3" by simp_all
    with i fin num have 1: "ci_rounded float64 2 (Fin 1) (Fin 1) (Fin (- 1)) (Fin 3)" by blast
    from inv1 obtain price se lo hi d where
      "bs_call_cv_fp float64 ?ppf ?g 2 0 1 0 1 2 (1/20) =
         Inr ((price, se, lo, hi, d), advance ?g (nat 2))"
      and i: "(\<exists>p. price = Fin p) \<and> se \<noteq> NaN \<longrightarrow> ci_rounded float64 2 price se lo hi"
      by blast
    with cv have "price = Fin 2" "se = Fin 0" "lo = Fin 2" "hi = Fin 2" by simp_all
    with i fin num have 2: "ci_rounded float64 2 (Fin 2) (Fin 0) (Fin 2) (Fin 2)" by blast
    from inv0 obtain price se lo hi d where
      "bs_call_av_fp float64 ?ppf ?h 2 1 1 0 0 2 (1/20) =
         Inr ((price, se, lo, hi, d), advance ?h (nat 2))"
      and i: "(\<exists>p. price = Fin p) \<and> se \<noteq> NaN \<longrightarrow> ci_rounded float64 2 price se lo hi"
      by blast
    with av have "price = Fin 1" "se = Fin 0" "lo = Fin 1" "hi = Fin 1" by simp_all
    with i fin num have 3: "ci_rounded float64 2 (Fin 1) (Fin 0) (Fin 1) (Fin 1)" by blast
    from ieee_float64 hn s1 s0 mc cv av 1 2 3 show ?thesis by blast
  qed
  from exact_part binary64_part show ?thesis by blast
qed

text \<open>
  As stated for every input with at least two observations the claim fails for the
  control-variate estimator at \<open>sigma = 0\<close>: every comparison with the returned
  \<open>NaN\<close> is false.
\<close>

theorem cv_interval_not_ordered:
  "(0::real) < 1/20 \<and> (1/20::real) < 1 \<and> (2::int) \<le> 2 \<and>
   bs_call_cv (\<lambda>p. Fin 2) (\<lambda>i. real i) 50 50 (1/4) (1/20) 0 2 (1/20) =
     Inr ((NaN, NaN, NaN, NaN, NaN), advance (\<lambda>i. real i) 2) \<and>
   \<not> fle NaN NaN \<and> \<not> ci_invariant NaN NaN NaN NaN"
proof -
  have v: "sample_var (map (\<lambda>s. exp (- (1/20) * (1/4)) * s)
             (sample_prices (\<lambda>i. real i) 50 (1/20) 0 (1/4) (nat 2))) = 0"
    by (rule sigma_zero_control)
  have h: "(2::int) \<le> 2" "(0::real) \<le> 1/4" by simp_all
  from bs_call_cv_zero_var[OF h v] show ?thesis by (simp add: ci_invariant_def)
qed

section \<open>The range of the squared correlation\<close>

text \<open>
  Claim C8, amended. In the sweep over a fixed sample of terminal prices (a draw count
  that is not negative, a power \<open>sigma ** 2\<close> that does not overflow), for every strike
  the computed \<open>rho_squared\<close> is the power \<open>rho ** 2\<close> of the correlation \<open>rho\<close>
  that \<open>np.corrcoef\<close> returns, and it is either \<open>NaN\<close>, which is the case exactly when
  \<open>rho\<close> is \<open>NaN\<close>, or a float in \<open>[0, 1]\<close>, with \<open>rho\<close> in \<open>[-1, 1]\<close>. The
  statement holds in every arithmetic that satisfies \<open>ieee\<close>.
\<close>

theorem sweep_rhosquared_rounded:
  assumes "ieee A" and "0 \<le> samplesize" and "square_py A sigma = Inr q"
    and "length strikes = numberofk" and "i < numberofk"
  shows "\<exists>rho rhosquared.
           sweep_fp A g S0 T r sigma samplesize numberofk strikes =
             Inr ((rho, rhosquared), advance g (nat samplesize)) \<and>
           length rho = numberofk \<and> length rhosquared = numberofk \<and>
           rhosquared ! i = gsquare A (rho ! i) \<and>
           (rho ! i = NaN \<and> rhosquared ! i = NaN \<or>
            fle (Fin (- 1)) (rho ! i) \<and> fle (rho ! i) (Fin 1) \<and>
            fle (Fin 0) (rhosquared ! i) \<and> fle (rhosquared ! i) (Fin 1))"
proof -
  from terminal_stockprice_fp_eq[OF assms(2,3), of g S0 T r] obtain mys where
    "terminal_stockprice_fp A g S0 T r sigma samplesize = Inr (mys, advance g (nat samplesize))"
    by blast
  from sweep_fp_result[OF this assms(4)] have
    res: "sweep_fp A g S0 T r sigma samplesize numberofk strikes =
     Inr ((map (\<lambda>i. sweep_body_fp A mys r T (strikes ! i)) [0..<numberofk],
           map (\<lambda>i. gsquare A (sweep_body_fp A mys r T (strikes ! i))) [0..<numberofk]),
          advance g (nat samplesize))" .
  let ?b = "sweep_body_fp A mys r T (strikes ! i)"
  have b: "?b = NaN \<or> (\<exists>q. ?b = Fin q \<and> - 1 \<le> q \<and> q \<le> 1)"
    unfolding sweep_body_fp_def np_corrcoef01_fp_def Let_def by (rule np_clip_range)
  have "?b = NaN \<and> gsquare A ?b = NaN \<or>
        fle (Fin (- 1)) ?b \<and> fle ?b (Fin 1) \<and>
        fle (Fin 0) (gsquare A ?b) \<and> fle (gsquare A ?b) (Fin 1)"
    using b square_range[OF assms(1)] by auto
  then show ?thesis
    unfolding res using assms(5) by simp
qed

theorem sweep_rhosquared_rounded_witness:
  "ieee exact \<and> (0::int) \<le> 3 \<and> square_py exact 1 = Inr (Fin 1) \<and>
   length [Fin 0, Fin 2, Fin 5] = 3 \<and> (1::nat) < 3 \<and>
   rhosquared_at (sweep_fp exact (\<lambda>i. 1/2 + real i * ln 2) 1 1 0 1 3 3 [Fin 0, Fin 2, Fin 5]) 1
     = Inr (Fin (25/28)) \<and>
   (\<exists>rho rhosquared.
      sweep_fp exact (\<lambda>i. 1/2 + real i * ln 2) 1 1 0 1 3 3 [Fin 0, Fin 2, Fin 5] =
        Inr ((rho, rhosquared), advance (\<lambda>i. 1/2 + real i * ln 2) (nat 3)) \<and>
      length rho = 3 \<and> length rhosquared = 3 \<and>
      rhosquared ! 1 = gsquare exact (rho ! 1) \<and>
      (rho ! 1 = NaN \<and> rhosquared ! 1 = NaN \<or>
       fle (Fin (- 1)) (rho ! 1) \<and> fle (rho ! 1) (Fin 1) \<and>
       fle (Fin 0) (rhosquared ! 1) \<and> fle (rhosquared ! 1) (Fin 1))) \<and>
   ieee float64 \<and> (0::int) \<le> 2 \<and> square_py float64 1 = Inr (Fin 1) \<and>
   length [Fin 0, Fin 5] = 2 \<and> (1::nat) < 2 \<and>
   rhosquared_at (sweep_fp float64 (\<lambda>i. if i = 0 then 1 / 2 else - 2000) 2 1 0 1 2 2 [Fin 0, Fin 5]) 1 = Inr NaN \<and>
   (\<exists>rho rhosquared.
      sweep_fp float64 (\<lambda>i. if i = 0 then 1 / 2 else - 2000) 2 1 0 1 2 2 [Fin 0, Fin 5] =
        Inr ((rho, rhosquared), advance (\<lambda>i. if i = 0 then 1 / 2 else - 2000) (nat 2)) \<and>
      length rho = 2 \<and> length rhosquared = 2 \<and>
      rhosquared ! 1 = gsquare float64 (rho ! 1) \<and>
      (rho ! 1 = NaN \<and> rhosquared ! 1 = NaN \<or>
       fle (Fin (- 1)) (rho ! 1) \<and> fle (rho ! 1) (Fin 1) \<and>
       fle (Fin 0) (rhosquared ! 1) \<and> fle (rhosquared ! 1) (Fin 1)))"
proof -
  have exact_part:
    "ieee exact \<and> (0::int) \<le> 3 \<and> square_py exact 1 = Inr (Fin 1) \<and>
   length [Fin 0, Fin 2, Fin 5] = 3 \<and> (1::nat) < 3 \<and>
   rhosquared_at (sweep_fp exact (\<lambda>i. 1/2 + real i * ln 2) 1 1 0 1 3 3 [Fin 0, Fin 2, Fin 5]) 1
     = Inr (Fin (25/28)) \<and>
   (\<exists>rho rhosquared.
      sweep_fp exact (\<lambda>i. 1/2 + real i * ln 2) 1 1 0 1 3 3 [Fin 0, Fin 2, Fin 5] =
        Inr ((rho, rhosquared), advance (\<lambda>i. 1/2 + real i * ln 2) (nat 3)) \<and>
      length rho = 3 \<and> length rhosquared = 3 \<and>
      rhosquared ! 1 = gsquare exact (rho ! 1) \<and>
      (rho ! 1 = NaN \<and> rhosquared ! 1 = NaN \<or>
       fle (Fin (- 1)) (rho ! 1) \<and> fle (rho ! 1) (Fin 1) \<and>
       fle (Fin 0) (rhosquared ! 1) \<and> fle (rhosquared ! 1) (Fin 1)))"
  proof -
    let ?g = "\<lambda>i. 1/2 + real i * ln 2"
    have vx: "sample_var [1, 2, 4] = 7/3"
      by (simp add: sample_var_def sample_mean_def power2_eq_square)
    have vy: "sample_var [0, 0, 2] = 4/3"
      by (simp add: sample_var_def sample_mean_def power2_eq_square)
    have c: "sample_cov [1, 2, 4] [0, 0, 2] = 5/3"
      by (simp add: sample_cov_def sample_mean_def)
    have h: "ieee exact" "(0::int) \<le> 3" "square_py exact 1 = Inr (Fin 1)"
      "length [Fin 0, Fin 2, Fin 5] = 3" "(1::nat) < 3"
      by (simp_all add: ieee_exact)
    have T: "(0::real) \<le> 1" by simp
    have len: "2 \<le> length [0..<nat 3]" by simp
    have k: "[Fin 0, Fin 2, Fin 5] ! 1 = Fin 2" by simp
    have "rhosquared_at (sweep ?g 1 1 0 1 3 3 [Fin 0, Fin 2, Fin 5]) 1 =
       (let S = sample_prices ?g 1 0 1 1 (nat 3);
            X = map (\<lambda>s. exp (- 0 * 1) * s) S;
            Y = map (discounted_payoff 0 1 2) S
        in if sample_var X = 0 \<or> sample_var Y = 0 then Inr NaN
           else Inr (Fin ((sample_cov X Y)\<^sup>2 / (sample_var X * sample_var Y))))"
      unfolding rhosquared_at_sweep[OF h(2) T h(4,5)] k sweep_body_square[OF len]
        sample_prices_def Let_def map_map comp_def
      by simp
    then have r: "rhosquared_at (sweep_fp exact ?g 1 1 0 1 3 3 [Fin 0, Fin 2, Fin 5]) 1
       = Inr (Fin (25/28))"
      unfolding sweep_fp_exact prices_124[simplified] Let_def
      by (simp add: prices_124 discounted_payoff_def vx vy c power2_eq_square)
    from sweep_rhosquared_rounded[OF h, of ?g 1 1 0] r h
    show ?thesis by blast
  qed
  have binary64_part:
    "ieee float64 \<and> (0::int) \<le> 2 \<and> square_py float64 1 = Inr (Fin 1) \<and>
   length [Fin 0, Fin 5] = 2 \<and> (1::nat) < 2 \<and>
   rhosquared_at (sweep_fp float64 (\<lambda>i. if i = 0 then 1 / 2 else - 2000) 2 1 0 1 2 2 [Fin 0, Fin 5]) 1 = Inr NaN \<and>
   (\<exists>rho rhosquared.
      sweep_fp float64 (\<lambda>i. if i = 0 then 1 / 2 else - 2000) 2 1 0 1 2 2 [Fin 0, Fin 5] =
        Inr ((rho, rhosquared), advance (\<lambda>i. if i = 0 then 1 / 2 else - 2000) (nat 2)) \<and>
      length rho = 2 \<and> length rhosquared = 2 \<and>
      rhosquared ! 1 = gsquare float64 (rho ! 1) \<and>
      (rho ! 1 = NaN \<and> rhosquared ! 1 = NaN \<or>
       fle (Fin (- 1)) (rho ! 1) \<and> fle (rho ! 1) (Fin 1) \<and>
       fle (Fin 0) (rhosquared ! 1) \<and> fle (rhosquared ! 1) (Fin 1)))"
  proof -
    let ?g = "\<lambda>i. if i = 0 then 1 / 2 else - (2000::real)"
    have h: "ieee float64" "(0::int) \<le> 2" "square_py float64 1 = Inr (Fin 1)"
      "length [Fin 0, Fin 5] = 2" "(1::nat) < 2"
      by (simp_all add: ieee_float64)
    have r: "rhosquared_at (sweep_fp float64 ?g 2 1 0 1 2 2 [Fin 0, Fin 5]) 1 = Inr NaN"
      using sweep_binary64 by (simp add: rhosquared_at_def)
    from sweep_rhosquared_rounded[OF h, of ?g 2 1 0] r h
    show ?thesis by blast
  qed
  from exact_part binary64_part show ?thesis by blast
qed

text \<open>
  As stated for every strike the claim fails where the strike lies above every sampled
  price: all payoffs are zero, the correlation is \<open>0 / 0\<close>.
\<close>

theorem sweep_strike_above_sample:
  "rhosquared_at (sweep (\<lambda>i. - 1 - real i) 50 (1/4) (1/20) (3/10) 2 100 (np_linspace 0 80 100)) 99
     = Inr NaN \<and> \<not> fle (Fin 0) NaN \<and> \<not> fle NaN (Fin 1)"
proof -
  let ?s = "\<lambda>i. gbm_terminal 50 (1/20) (3/10) (1/4) (- 1 - real i)"
  have le: "?s i \<le> 80" for i
  proof -
    have "(1/20 - (3/10)\<^sup>2 / 2) * (1/4) + 3/10 * sqrt (1/4) * (- 1 - real i) \<le> 0"
      by (simp add: real_sqrt_divide power2_eq_square field_simps)
    then have "exp ((1/20 - (3/10)\<^sup>2 / 2) * (1/4) + 3/10 * sqrt (1/4) * (- 1 - real i)) \<le> 1"
      by (simp only: exp_le_one_iff)
    then show ?thesis unfolding gbm_terminal_def by linarith
  qed
  have y: "discounted_payoff (1/20) (1/4) 80 (?s i) = 0" for i
    using le[of i] by (simp add: discounted_payoff_def max_def)
  have h: "(0::int) \<le> 2" "(0::real) \<le> 1/4" "length (np_linspace 0 80 100) = 100" "(99::nat) < 100"
    by (simp_all add: np_linspace_def)
  have len: "2 \<le> length [0..<nat 2]" by simp
  have "rhosquared_at (sweep (\<lambda>i. - 1 - real i) 50 (1/4) (1/20) (3/10) 2 100 (np_linspace 0 80 100)) 99
     = Inr NaN"
    unfolding rhosquared_at_sweep[OF h] np_linspace_last Let_def sweep_body_Fin[OF len] y
      sample_var_const
    by simp
  then show ?thesis by simp
qed

end
